theory Spec2Isabelle
  imports Complex_Main
begin

section \<open>Runtime values: numbers, strings and their renderings\<close>

text \<open>
  The application is TypeScript. A \<^verbatim>\<open>number\<close> of the language is a binary64 floating-point
  value: \<open>Num r\<close> is the finite value \<open>r\<close>, and the three other constructors are the values
  that are not finite (the two zeros are not told apart; nothing modelled here divides).
  Timestamps (\<^verbatim>\<open>Date.now()\<close>) and lengths are integers. A string is a list of code units,
  each below 256 (the Latin-1 range); strings with other code units are outside the
  model. An exception is the left summand of a sum type and carries the message of
  what was thrown. Writes to the console are left out.
\<close>

datatype number = Num real | Infinity | NegInfinity | NaN

text \<open>The comparison \<^verbatim>\<open>a < b\<close> on numbers; every comparison with \<^verbatim>\<open>NaN\<close> is false.\<close>

fun number_less :: "number \<Rightarrow> number \<Rightarrow> bool" where
  "number_less (Num a) (Num b) = (a < b)"
| "number_less (Num a) Infinity = True"
| "number_less (Num a) NegInfinity = False"
| "number_less (Num a) NaN = False"
| "number_less Infinity b = False"
| "number_less NegInfinity (Num b) = True"
| "number_less NegInfinity Infinity = True"
| "number_less NegInfinity NegInfinity = False"
| "number_less NegInfinity NaN = False"
| "number_less NaN b = False"


subsection \<open>Binary64 arithmetic\<close>

text \<open>
  The rounding of a real to binary64: to the nearest value with 53 significant bits
  (exponent at least \<open>-1022\<close>, so that the subnormal values share the smallest one),
  a tie going to the even significand, and a result of magnitude \<open>2\<^sup>1\<^sup>0\<^sup>2\<^sup>4\<close> or more
  becoming an infinity. A decimal literal of the source and the result of \<^verbatim>\<open>+\<close> and
  \<^verbatim>\<open>-\<close> are the exact value rounded in this way.
\<close>

definition round_half_even :: "real \<Rightarrow> int" where
  "round_half_even x =
     (let f = \<lfloor>x\<rfloor>; r = x - of_int f
      in if r < 1 / 2 then f else if 1 / 2 < r then f + 1 else if even f then f else f + 1)"

definition binary64 :: "real \<Rightarrow> number" where
  "binary64 x =
     (if x = 0 then Num 0
      else
        (let e = max \<lfloor>log 2 \<bar>x\<bar>\<rfloor> (- 1022);
             ulp = 2 powr (of_int e - 52);
             y = of_int (round_half_even (x / ulp)) * ulp
         in if 2 ^ 1024 \<le> \<bar>y\<bar> then (if x < 0 then NegInfinity else Infinity) else Num y))"

fun number_negate :: "number \<Rightarrow> number" where
  "number_negate (Num a) = Num (- a)"
| "number_negate Infinity = NegInfinity"
| "number_negate NegInfinity = Infinity"
| "number_negate NaN = NaN"

fun number_plus :: "number \<Rightarrow> number \<Rightarrow> number" where
  "number_plus (Num a) (Num b) = binary64 (a + b)"
| "number_plus NaN b = NaN"
| "number_plus a NaN = NaN"
| "number_plus Infinity NegInfinity = NaN"
| "number_plus NegInfinity Infinity = NaN"
| "number_plus Infinity b = Infinity"
| "number_plus a Infinity = Infinity"
| "number_plus NegInfinity b = NegInfinity"
| "number_plus a NegInfinity = NegInfinity"

definition number_minus :: "number \<Rightarrow> number \<Rightarrow> number" where
  "number_minus a b = number_plus a (number_negate b)"

subsection \<open>Decimal renderings\<close>

definition digit_char :: "nat \<Rightarrow> char" where
  "digit_char d = ''0123456789'' ! d"

text \<open>A non-negative integer inside a template literal: its decimal digits.\<close>

function show_nat :: "nat \<Rightarrow> string" where
  "show_nat n =
     (if n < 10 then [digit_char n] else show_nat (n div 10) @ [digit_char (n mod 10)])"
  by pat_completeness auto
termination
  by (relation "measure id") auto

declare show_nat.simps [simp del]

definition show_int :: "int \<Rightarrow> string" where
  "show_int i = (if i < 0 then ''-'' @ show_nat (nat (- i)) else show_nat (nat i))"

text \<open>
  \<^verbatim>\<open>Number.prototype.toFixed(f)\<close> as ECMAScript defines it: a non-finite value prints
  its name; the sign is split off; a magnitude of at least \<open>10\<^sup>2\<^sup>1\<close> is printed by the
  general number-to-string conversion (exponent notation), which is the parameter
  \<open>Number_toString\<close> here; otherwise \<open>n\<close> is the integer nearest to \<open>x * 10\<^sup>f\<close>
  (the larger one on a tie), printed with at least one digit before the point and
  exactly \<open>f\<close> digits after it.
\<close>

definition toFixed :: "(real \<Rightarrow> string) \<Rightarrow> number \<Rightarrow> nat \<Rightarrow> string" where
  "toFixed Number_toString x f =
     (case x of
        Infinity \<Rightarrow> ''Infinity''
      | NegInfinity \<Rightarrow> ''-Infinity''
      | NaN \<Rightarrow> ''NaN''
      | Num r \<Rightarrow>
          (let s = (if r < 0 then ''-'' else '''');
               a = \<bar>r\<bar>
           in if 10 ^ 21 \<le> a then s @ Number_toString a
              else
                (let n = nat \<lfloor>a * 10 ^ f + 1 / 2\<rfloor>;
                     m = show_nat n
                 in if f = 0 then s @ m
                    else
                      (let z = replicate (f + 1 - length m) (CHR ''0'') @ m;
                           k = length z
                       in s @ take (k - f) z @ ''.'' @ drop (k - f) z))))"

subsection \<open>Untyped values and what the language leaves to the engine\<close>

text \<open>
  A value of type \<^verbatim>\<open>any\<close>, as far as the source tells values apart: an array, an
  array-like object (one with a \<^verbatim>\<open>length\<close>, such as a \<^verbatim>\<open>Float32Array\<close>), another
  object, and the primitive values.
\<close>

datatype jsval =
    JUndefined
  | JNull
  | JBoolean bool
  | JNumber number
  | JString string
  | JArray "jsval list"
  | JArrayLike "jsval list"
  | JObject

text \<open>
  What ECMAScript leaves to the engine, or what is not modelled, is a parameter:
  the exponent notation of a large number; \<^verbatim>\<open>Math.pow(x, 2)\<close> and \<^verbatim>\<open>Math.sqrt(x)\<close>
  (implementation-approximated); what \<^verbatim>\<open>calculateEuclideanDistance\<close> yields when the
  stored embedding is not an array of numbers (the coercions of the language then
  decide, or an exception); and the text of the \<^verbatim>\<open>TypeError\<close> of reading a property of
  \<^verbatim>\<open>undefined\<close>.
\<close>

record Runtime =
  Number_toString :: "real \<Rightarrow> string"
  Math_pow_2 :: "number \<Rightarrow> number"
  Math_sqrt :: "number \<Rightarrow> number"
  distance_coerced :: "number list \<Rightarrow> jsval \<Rightarrow> string + number"
  TypeError_text :: string

text \<open>
  The engine of the examples: \<^verbatim>\<open>Math.pow\<close> and \<^verbatim>\<open>Math.sqrt\<close> correctly rounded. Its
  other fields matter to no example.
\<close>

fun rounded_pow_2 :: "number \<Rightarrow> number" where
  "rounded_pow_2 (Num a) = binary64 (a * a)"
| "rounded_pow_2 Infinity = Infinity"
| "rounded_pow_2 NegInfinity = Infinity"
| "rounded_pow_2 NaN = NaN"

fun rounded_sqrt :: "number \<Rightarrow> number" where
  "rounded_sqrt (Num a) = (if a < 0 then NaN else binary64 (sqrt a))"
| "rounded_sqrt Infinity = Infinity"
| "rounded_sqrt NegInfinity = NaN"
| "rounded_sqrt NaN = NaN"

definition engine :: Runtime where
  "engine =
     \<lparr>Number_toString = (\<lambda>x. ''1e+21''), Math_pow_2 = rounded_pow_2, Math_sqrt = rounded_sqrt,
      distance_coerced = (\<lambda>emb1 emb2. Inl ''Cannot read property of undefined''),
      TypeError_text = ''Cannot read property of undefined''\<rparr>"

section \<open>The database (database.ts)\<close>

text \<open>
  The SQLite database holds the table \<^verbatim>\<open>Users (userId TEXT UNIQUE, embedding TEXT)\<close>,
  its rows in the order of their row ids, and the table
  \<^verbatim>\<open>VerificationLogs (userId TEXT, timestamp)\<close>; the timestamp column is filled by the
  database and is left out. Opening the database or running a statement can fail:
  \<open>db_error\<close> is the error the driver then reports, and \<open>None\<close> when it works.
\<close>

record UserRow =
  row_userId :: string
  row_embedding :: string

record Database =
  Users :: "UserRow list"
  VerificationLogs :: "string list"
  db_error :: "string option"

text \<open>
  \<^verbatim>\<open>logVerification(userId)\<close>: inserts one row into \<^verbatim>\<open>VerificationLogs\<close>; the promise
  rejects with the driver's error (left summand) when the database fails.
\<close>

definition logVerification :: "Database \<Rightarrow> string \<Rightarrow> string + Database" where
  "logVerification db uid =
     (case db_error db of
        Some e \<Rightarrow> Inl e
      | None \<Rightarrow> Inr (db\<lparr>VerificationLogs := VerificationLogs db @ [uid]\<rparr>))"

text \<open>
  \<^verbatim>\<open>String.prototype.trim\<close>: the white space and the line terminators of the language
  among the code units below 256 (tab, line feed, vertical tab, form feed, carriage
  return, space, no-break space).
\<close>

definition is_space :: "char \<Rightarrow> bool" where
  "is_space c =
     (c \<in> set [CHR 0x09, CHR 0x0A, CHR 0x0B, CHR 0x0C, CHR 0x0D, CHR 0x20, CHR 0xA0])"

definition trim :: "string \<Rightarrow> string" where
  "trim s = rev (dropWhile is_space (rev (dropWhile is_space s)))"










text \<open>
  \<^verbatim>\<open>getUsers\<close>: the loop over the rows of \<^verbatim>\<open>SELECT userId, embedding FROM Users\<close>.
  \<^verbatim>\<open>JSON.parse\<close> is a parameter; \<open>None\<close> is its \<^verbatim>\<open>SyntaxError\<close>, which the loop
  catches, skipping the row. The result of the parse is stored as the embedding without
  any check (the type \<^verbatim>\<open>number[]\<close> of the interface is not enforced at run time).
\<close>

record User =
  userId :: string
  embedding :: jsval





section \<open>The vector matcher (VerifyScreen: calculateEuclideanDistance, verifyFace)\<close>

record VerificationResult =
  verified :: bool
  userId_opt :: "string option"
  distance :: "number option"
  message :: "string option"

text \<open>A component of a stored embedding, when it is a number.\<close>

fun number_of :: "jsval \<Rightarrow> number option" where
  "number_of (JNumber n) = Some n"
| "number_of v = None"

text \<open>
  \<^verbatim>\<open>calculateEuclideanDistance(emb1, emb2)\<close>: throws on a length mismatch, otherwise the
  square root of \<^verbatim>\<open>emb1.reduce((sum, val, i) => sum + Math.pow(val - emb2[i], 2), 0)\<close>,
  every operation in floating point. The first argument is the probe, an array of
  numbers; the second is what was stored for a user.
\<close>

definition calculateEuclideanDistance :: "Runtime \<Rightarrow> number list \<Rightarrow> jsval \<Rightarrow> string + number" where
  "calculateEuclideanDistance rt emb1 emb2 =
     (case emb2 of
        JArray xs \<Rightarrow>
          (if length emb1 \<noteq> length xs
           then Inl (''Embedding length mismatch: '' @ show_nat (length emb1) @ '' vs ''
                     @ show_nat (length xs))
           else
             (case those (map number_of xs) of
                None \<Rightarrow> distance_coerced rt emb1 emb2
              | Some ys \<Rightarrow>
                  Inr (Math_sqrt rt
                    (foldl (\<lambda>sum (val, i).
                              number_plus sum (Math_pow_2 rt (number_minus val (ys ! i))))
                       (Num 0) (zip emb1 [0..<length emb1])))))
      | _ \<Rightarrow> distance_coerced rt emb1 emb2)"

text \<open>
  The \<^verbatim>\<open>for (const user of cachedUsers)\<close> loop of \<^verbatim>\<open>verifyFace\<close>. The pair is the
  variable \<^verbatim>\<open>closestMatch = { distance, user }\<close>; an exception of the distance
  computation leaves the loop.
\<close>

fun closestMatch_loop ::
  "Runtime \<Rightarrow> number list \<Rightarrow> User list \<Rightarrow> number \<times> User option
     \<Rightarrow> string + (number \<times> User option)" where
  "closestMatch_loop rt newEmbedding [] closestMatch = Inr closestMatch"
| "closestMatch_loop rt newEmbedding (user # rest) closestMatch =
     (case calculateEuclideanDistance rt newEmbedding (embedding user) of
        Inl err \<Rightarrow> Inl err
      | Inr d \<Rightarrow>
          closestMatch_loop rt newEmbedding rest
            (if number_less d (fst closestMatch) then (d, Some user) else closestMatch))"

text \<open>The literal \<^verbatim>\<open>0.6\<close>: the binary64 value nearest to six tenths.\<close>

definition threshold :: number where
  "threshold = binary64 (6 / 10)"

text \<open>
  \<^verbatim>\<open>verifyFace(newEmbedding)\<close>, with the cached population and the database it closes
  over as arguments, and the database returned. The body is one \<^verbatim>\<open>try\<close>: whatever is
  thrown inside (by the distance computation or by the rejected promise of
  \<^verbatim>\<open>logVerification\<close>) ends in the \<^verbatim>\<open>catch\<close>, which returns the generic failure.
\<close>

definition verifyFace ::
  "Runtime \<Rightarrow> User list \<Rightarrow> Database \<Rightarrow> number list \<Rightarrow> VerificationResult \<times> Database" where
  "verifyFace rt cachedUsers db newEmbedding =
     (if length newEmbedding \<noteq> 128 then
        (\<lparr>verified = False, userId_opt = None, distance = None,
          message = Some (''Invalid embedding length: '' @ show_nat (length newEmbedding))\<rparr>, db)
      else if length cachedUsers = 0 then
        (\<lparr>verified = False, userId_opt = None, distance = None,
          message = Some ''No users registered''\<rparr>, db)
      else
        (case closestMatch_loop rt newEmbedding cachedUsers (Infinity, None) of
           Inl err \<Rightarrow>
             (\<lparr>verified = False, userId_opt = None, distance = None,
               message = Some ''Error during verification''\<rparr>, db)
         | Inr (d, closest) \<Rightarrow>
             (case (if number_less d threshold then closest else None) of
                Some u \<Rightarrow>
                  (case logVerification db (userId u) of
                     Inl err \<Rightarrow>
                       (\<lparr>verified = False, userId_opt = None, distance = None,
                         message = Some ''Error during verification''\<rparr>, db)
                   | Inr db' \<Rightarrow>
                       (\<lparr>verified = True, userId_opt = Some (userId u), distance = Some d,
                         message = None\<rparr>, db'))
              | None \<Rightarrow>
                  (\<lparr>verified = False, userId_opt = None, distance = None,
                    message = Some (''No match found (closest: ''
                      @ (case closest of None \<Rightarrow> ''undefined'' | Some u \<Rightarrow> userId u)
                      @ '' '' @ toFixed (Number_toString rt) d 2 @ '')'')\<rparr>, db))))"

text \<open>
  The distance as the specification writes it, \<open>sqrt (\<Sum> (a\<^sub>i - b\<^sub>i)\<^sup>2)\<close>, on real numbers:
  what the \<^verbatim>\<open>reduce\<close> of the source would compute without rounding.
\<close>

definition euclidean :: "real list \<Rightarrow> real list \<Rightarrow> real" where
  "euclidean a b = sqrt (\<Sum>i<length a. (a ! i - b ! i) ^ 2)"

text \<open>One round of the loop, on a computed distance and its user.\<close>

definition closer :: "number \<times> User option \<Rightarrow> number \<times> User \<Rightarrow> number \<times> User option" where
  "closer cm du = (if number_less (fst du) (fst cm) then (fst du, Some (snd du)) else cm)"

text \<open>An embedding of finite numbers, as the probe and as a stored array.\<close>

definition probe :: "real list \<Rightarrow> number list" where
  "probe rs = map Num rs"

definition stored_array :: "real list \<Rightarrow> jsval" where
  "stored_array rs = JArray (map (\<lambda>r. JNumber (Num r)) rs)"

section \<open>The gate link (useBluetoothESP32)\<close>

text \<open>
  The state of the hook (\<open>isConnected\<close>, \<open>isAuthenticated\<close>, \<open>device\<close>, \<open>responses\<close>,
  \<open>hasPermissions\<close>) together with what it does to its surroundings: the alerts it
  raises (title and text), the lines it has written to the device (\<open>sent\<close>), whether
  the connection of the device is open (\<open>link_open\<close>) and whether the handler of
  \<^verbatim>\<open>onDataReceived\<close> is registered (\<open>listening\<close>). A function of the hook reads the
  state as it is when the function is called.
\<close>

record GateLink =
  isConnected :: bool
  isAuthenticated :: bool
  device :: "string option"
  responses :: "string list"
  hasPermissions :: bool
  alerts :: "(string \<times> string) list"
  sent :: "string list"
  link_open :: bool
  listening :: bool

definition ESP32_DEVICE_NAME :: string where
  "ESP32_DEVICE_NAME = ''ESP32_Gate''"

definition PASSWORD :: string where
  "PASSWORD = ''MySecurePass123''"

definition addResponse :: "string \<Rightarrow> GateLink \<Rightarrow> GateLink" where
  "addResponse msg st = st\<lparr>responses := responses st @ [msg]\<rparr>"

definition alert :: "string \<Rightarrow> string \<Rightarrow> GateLink \<Rightarrow> GateLink" where
  "alert title msg st = st\<lparr>alerts := alerts st @ [(title, msg)]\<rparr>"

definition startsWith :: "string \<Rightarrow> string \<Rightarrow> bool" where
  "startsWith s p = (take (length p) s = p)"

text \<open>
  \<^verbatim>\<open>checkPermissions\<close> and \<^verbatim>\<open>requestAndroidPermissions\<close>: the argument is what the
  platform answers, an exception or one flag for each permission.
\<close>

definition checkPermissions :: "string + bool list \<Rightarrow> GateLink \<Rightarrow> GateLink \<times> bool" where
  "checkPermissions answers st =
     (case answers of
        Inl e \<Rightarrow> (alert ''Permission Check Error'' (''Failed to check permissions: '' @ e) st, False)
      | Inr results \<Rightarrow> (st, list_all (\<lambda>b. b) results))"

definition requestAndroidPermissions :: "string + bool list \<Rightarrow> GateLink \<Rightarrow> GateLink \<times> bool" where
  "requestAndroidPermissions answers st =
     (case answers of
        Inl e \<Rightarrow> (alert ''Permission Error'' (''Failed to request permissions: '' @ e) st, False)
      | Inr granted \<Rightarrow>
          (let allGranted = list_all (\<lambda>b. b) granted
           in (if \<not> allGranted
               then alert ''Permissions Required''
                      ''Bluetooth and location permissions are required.'' st
               else st, allGranted)))"

text \<open>The handler that \<^verbatim>\<open>connectToESP32\<close> registers with \<^verbatim>\<open>espDevice.onDataReceived\<close>.\<close>

definition onDataReceived :: "string \<Rightarrow> GateLink \<Rightarrow> GateLink" where
  "onDataReceived data st =
     (let msg = trim data;
          st1 = addResponse (''Received: '' @ msg) st
      in if msg = ''AUTH_SUCCESS'' then
           addResponse ''Authentication successful'' (st1\<lparr>isAuthenticated := True\<rparr>)
         else if msg = ''AUTH_FAILED'' then
           alert ''Authentication Error'' ''Incorrect password''
             (addResponse ''Authentication failed'' (st1\<lparr>isAuthenticated := False\<rparr>))
         else if msg = ''NOT_AUTHENTICATED'' then
           alert ''Error'' ''Please authenticate first''
             (addResponse ''Command rejected: Not authenticated'' st1)
         else st1)"

text \<open>
  What the platform answers during one \<^verbatim>\<open>connectToESP32\<close>: an exception of enabling
  Bluetooth, the permission answers, the bonded devices (by name), the result of
  \<^verbatim>\<open>espDevice.connect()\<close>, and an exception of writing the authentication line.
\<close>

record ConnectEnv =
  bluetooth_error :: "string option"
  permission_checks :: "string + bool list"
  permission_request :: "string + bool list"
  bondedDevices :: "string + string list"
  connect_outcome :: "string + bool"
  auth_write_error :: "string option"

text \<open>
  \<^verbatim>\<open>connectToESP32\<close>. The result is \<^verbatim>\<open>true\<close>, \<^verbatim>\<open>false\<close> or nothing (when
  \<^verbatim>\<open>connect()\<close> answers a falsy value, the function ends without a \<^verbatim>\<open>return\<close>).
  Every exception ends in the \<^verbatim>\<open>catch\<close>: an alert and \<^verbatim>\<open>false\<close>.
\<close>

definition connectToESP32 :: "ConnectEnv \<Rightarrow> GateLink \<Rightarrow> GateLink \<times> bool option" where
  "connectToESP32 env st =
     (case bluetooth_error env of
        Some e \<Rightarrow> (alert ''Connection Error'' (''Bluetooth error: '' @ e) st, Some False)
      | None \<Rightarrow>
          (case checkPermissions (permission_checks env) st of (st1, checked) \<Rightarrow>
           (case (if \<not> checked then requestAndroidPermissions (permission_request env) st1
                  else (st1, checked)) of (st2, permissionsGranted) \<Rightarrow>
            if \<not> permissionsGranted then (st2\<lparr>hasPermissions := False\<rparr>, Some False)
            else
              (let st3 = st2\<lparr>hasPermissions := True\<rparr>
               in case bondedDevices env of
                    Inl e \<Rightarrow>
                      (alert ''Connection Error'' (''Bluetooth error: '' @ e) st3, Some False)
                  | Inr devices \<Rightarrow>
                      (case find (\<lambda>d. d = ESP32_DEVICE_NAME) devices of
                         None \<Rightarrow>
                           (alert ''Device Not Found''
                              ''ESP32_Gate not found in paired devices'' st3, Some False)
                       | Some espDevice \<Rightarrow>
                           (let st4 = st3\<lparr>device := Some espDevice\<rparr>
                            in case connect_outcome env of
                                 Inl e \<Rightarrow>
                                   (alert ''Connection Error'' (''Bluetooth error: '' @ e) st4,
                                    Some False)
                               | Inr connection \<Rightarrow>
                                   if connection then
                                     (let st5 = addResponse ''Connected to ESP32_Gate''
                                            (st4\<lparr>isConnected := True, link_open := True,
                                                 listening := True\<rparr>)
                                      in case auth_write_error env of
                                           Some e \<Rightarrow>
                                             (alert ''Connection Error''
                                                (''Bluetooth error: '' @ e) st5, Some False)
                                         | None \<Rightarrow>
                                             (addResponse ''Sent: AUTHENTICATE''
                                                (st5\<lparr>sent := sent st5 @
                                                   [''AUTHENTICATE '' @ PASSWORD @ [CHR 0x0A]]\<rparr>),
                                              Some True))
                                   else (st4, None)))))))"

text \<open>
  \<^verbatim>\<open>disconnectFromESP32\<close>; the argument is the exception of \<^verbatim>\<open>device.disconnect()\<close>,
  if it throws.
\<close>

definition disconnectFromESP32 :: "string option \<Rightarrow> GateLink \<Rightarrow> GateLink \<times> bool" where
  "disconnectFromESP32 disconnect_error st =
     (if device st \<noteq> None \<and> isConnected st then
        (case disconnect_error of
           Some e \<Rightarrow> (addResponse (''Error disconnecting: '' @ e) st, False)
         | None \<Rightarrow>
             (addResponse ''Disconnected from ESP32_Gate''
                (st\<lparr>link_open := False, isConnected := False, isAuthenticated := False,
                    device := None\<rparr>), True))
      else (st, False))"

text \<open>
  \<^verbatim>\<open>sendCommand(command)\<close>; the first argument is the exception of \<^verbatim>\<open>device.write\<close>,
  if it throws (it is caught and only logged to the console).
\<close>

definition sendCommand :: "string option \<Rightarrow> GateLink \<Rightarrow> string \<Rightarrow> GateLink" where
  "sendCommand write_error st command =
     (if \<not> isConnected st \<or> device st = None then
        alert ''Error'' ''Not connected to ESP32'' st
      else if \<not> isAuthenticated st \<and> \<not> startsWith command ''AUTHENTICATE'' then
        alert ''Error'' ''Must authenticate before sending commands'' st
      else
        (case write_error of
           Some e \<Rightarrow> st
         | None \<Rightarrow>
             addResponse (''Sent: '' @ command) (st\<lparr>sent := sent st @ [command @ [CHR 0x0A]]\<rparr>)))"

definition handleRetryPermissions :: "string + bool list \<Rightarrow> ConnectEnv \<Rightarrow> GateLink \<Rightarrow> GateLink" where
  "handleRetryPermissions answers env st =
     (case requestAndroidPermissions answers st of (st1, granted) \<Rightarrow>
        if granted then fst (connectToESP32 env (st1\<lparr>hasPermissions := True\<rparr>)) else st1)"

definition initial_link :: GateLink where
  "initial_link =
     \<lparr>isConnected = False, isAuthenticated = False, device = None, responses = [],
      hasPermissions = False, alerts = [], sent = [], link_open = False, listening = False\<rparr>"

text \<open>
  The life of the hook as a sequence of events, each with what the platform answers:
  a connection attempt (the mount effect and \<^verbatim>\<open>toggleBluetoothConnection(true)\<close>), a
  retry of the permissions, a disconnect (\<^verbatim>\<open>toggleBluetoothConnection(false)\<close>), the
  unmounting of the component, a line arriving from the device, the loss of the
  connection, and a command. The cleanup that runs at the unmounting,
  \<^verbatim>\<open>if (device) disconnectFromESP32()\<close>, belongs to the mount effect, whose dependency
  list is empty: the \<^verbatim>\<open>device\<close> it reads is the one of the first render. A line reaches
  the handler only while the connection of the device is open and the handler is
  registered; the hook has no handler for a lost connection, which therefore changes
  nothing but the device.
\<close>

datatype GateEvent =
    Connect ConnectEnv
  | RetryPermissions "string + bool list" ConnectEnv
  | Disconnect "string option"
  | Unmount "string option"
  | DataReceived string
  | LinkLost
  | Send "string option" string

fun gate_step :: "GateEvent \<Rightarrow> GateLink \<Rightarrow> GateLink" where
  "gate_step (Connect env) st = fst (connectToESP32 env st)"
| "gate_step (RetryPermissions answers env) st = handleRetryPermissions answers env st"
| "gate_step (Disconnect e) st = fst (disconnectFromESP32 e st)"
| "gate_step (Unmount e) st =
     (if device initial_link \<noteq> None then fst (disconnectFromESP32 e st) else st)"
| "gate_step (DataReceived data) st =
     (if link_open st \<and> listening st then onDataReceived data st else st)"
| "gate_step LinkLost st = st\<lparr>link_open := False\<rparr>"
| "gate_step (Send e command) st = sendCommand e st command"

inductive reachable :: "GateLink \<Rightarrow> bool" where
  reachable_initial: "reachable initial_link"
| reachable_step: "reachable st \<Longrightarrow> reachable (gate_step ev st)"

fun run_events :: "GateEvent list \<Rightarrow> GateLink \<Rightarrow> GateLink" where
  "run_events [] st = st"
| "run_events (ev # evs) st = run_events evs (gate_step ev st)"

text \<open>
  The connection state of the specification, read off the two flags. (Its state
  \<open>Connecting\<close> is the time a \<^verbatim>\<open>connectToESP32\<close> is under way, which is no state of
  this model.)
\<close>

datatype ConnectionState = Disconnected | Connecting | ConnectedUnauthenticated | Authenticated

definition connectionState :: "GateLink \<Rightarrow> ConnectionState" where
  "connectionState st =
     (if \<not> isConnected st then Disconnected
      else if \<not> isAuthenticated st then ConnectedUnauthenticated
      else Authenticated)"

section \<open>The verification screen (VerifyScreen)\<close>

record FaceDetection =
  box_x :: real
  box_y :: real
  box_width :: real
  box_height :: real
  score :: real

record Frame =
  frame_width :: real
  frame_height :: real

text \<open>
  The state of the component: \<open>camera\<close> says that \<^verbatim>\<open>camera.current\<close> is set, the other
  fields are its state variables.
\<close>

record VerifyScreen =
  camera :: bool
  status :: string
  isScanning :: bool
  lastVerifiedUser :: "string option"
  detections :: "FaceDetection list"
  error :: "string option"
  frameProcessorError :: "string option"
  cachedUsers :: "User list"
  lastCaptureTime :: int
  performanceMetrics :: "string list"


subsection \<open>The capture trigger (frameProcessor)\<close>

text \<open>The local \<^verbatim>\<open>validFace = detections.find(...)\<close> of the frame processor.\<close>

definition validFace :: "Frame \<Rightarrow> FaceDetection list \<Rightarrow> FaceDetection option" where
  "validFace fr dets =
     (let frameCenterX = frame_width fr / 2;
          frameCenterY = frame_height fr / 2;
          minFaceSize = frame_width fr * (3 / 10);
          maxFaceSize = frame_width fr * (7 / 10);
          centerTolerance = frame_width fr * (2 / 10)
      in find (\<lambda>det.
           let faceCenterX = box_x det + box_width det / 2;
               faceCenterY = box_y det + box_height det / 2;
               isCentered =
                 (\<bar>faceCenterX - frameCenterX\<bar> < centerTolerance \<and>
                  \<bar>faceCenterY - frameCenterY\<bar> < centerTolerance);
               isValidSize =
                 (box_width det \<ge> minFaceSize \<and> box_width det \<le> maxFaceSize \<and>
                  box_height det \<ge> minFaceSize \<and> box_height det \<le> maxFaceSize)
           in isCentered \<and> isValidSize \<and> score det > 7 / 10) dets)"

text \<open>
  The block \<^verbatim>\<open>// Auto-capture logic\<close> of the frame processor: the new state and
  whether \<^verbatim>\<open>captureAndVerify\<close> is dispatched.
\<close>

definition autoCapture :: "Frame \<Rightarrow> FaceDetection list \<Rightarrow> int \<Rightarrow> VerifyScreen \<Rightarrow> VerifyScreen \<times> bool" where
  "autoCapture fr dets now st =
     (if length dets = 0 then (st\<lparr>status := ''No face detected''\<rparr>, False)
      else if now - lastCaptureTime st < 3000 then (st, False)
      else
        (case validFace fr dets of
           Some face \<Rightarrow> (st\<lparr>lastCaptureTime := now\<rparr>, True)
         | None \<Rightarrow> (st, False)))"

text \<open>
  What the detection model answers for one frame: an exception (of the resize plug-in
  or of the model), nothing, fewer than two output tensors (\<open>n\<close> of them), or the boxes
  \<open>(b\<^sub>0, b\<^sub>1, b\<^sub>2, b\<^sub>3)\<close> and the scores.
\<close>

datatype ModelOutput =
    Throws string
  | NoOutputs
  | TooFew nat
  | Outputs "(real \<times> real \<times> real \<times> real) list" "real list"

text \<open>
  The loop \<^verbatim>\<open>for (let i = 0; i < scores.length; i++)\<close> that fills \<^verbatim>\<open>detections\<close> with
  the boxes whose score exceeds \<open>0.5\<close>. Reading a box that is not there throws a
  \<^verbatim>\<open>TypeError\<close>, whose text is the first argument.
\<close>

fun parseDetections ::
  "string \<Rightarrow> Frame \<Rightarrow> (real \<times> real \<times> real \<times> real) list \<Rightarrow> real list \<Rightarrow> nat \<Rightarrow> FaceDetection list
     \<Rightarrow> string + FaceDetection list" where
  "parseDetections type_error fr boxes [] i dets = Inr dets"
| "parseDetections type_error fr boxes (s # scores) i dets =
     (if s > 5 / 10 then
        (if i < length boxes then
           (case boxes ! i of (b0, b1, b2, b3) \<Rightarrow>
              parseDetections type_error fr boxes scores (Suc i)
                (dets @ [\<lparr>box_x = b1 * frame_width fr, box_y = b0 * frame_height fr,
                          box_width = (b3 - b1) * frame_width fr,
                          box_height = (b2 - b0) * frame_height fr, score = s\<rparr>]))
         else Inl type_error)
      else parseDetections type_error fr boxes scores (Suc i) dets)"

text \<open>
  What one run of the frame processor sees: the frame, whether the detection model is
  there and loaded, what it answers, the clock (\<^verbatim>\<open>Date.now()\<close>) and the time the
  processing took (\<^verbatim>\<open>performance.now() - startTime\<close>).
\<close>

record FrameInput =
  frame :: Frame
  model_present :: bool
  model_loaded :: bool
  model_output :: ModelOutput
  date_now :: int
  elapsed :: real

definition frameProcessor ::
  "Runtime \<Rightarrow> FrameInput \<Rightarrow> VerifyScreen \<Rightarrow> VerifyScreen \<times> bool" where
  "frameProcessor rt inp st =
     (if \<not> model_present inp \<or> isScanning st then (st, False)
      else if \<not> model_loaded inp then
        (st\<lparr>status := ''Face detection model loading...''\<rparr>, False)
      else
        (case (case model_output inp of
                 Throws e \<Rightarrow> Inl e
               | NoOutputs \<Rightarrow>
                   Inl ''Invalid model output - expected 2 outputs, got undefined''
               | TooFew n \<Rightarrow>
                   Inl (''Invalid model output - expected 2 outputs, got '' @ show_nat n)
               | Outputs boxes scores \<Rightarrow>
                   parseDetections (TypeError_text rt) (frame inp) boxes scores 0 []) of
           Inl e \<Rightarrow> (st\<lparr>frameProcessorError := Some e\<rparr>, False)
         | Inr dets \<Rightarrow>
             autoCapture (frame inp) dets (date_now inp)
               (st\<lparr>detections := dets,
                   performanceMetrics :=
                     (''Frame processed in '' @ toFixed (Number_toString rt) (Num (elapsed inp)) 1
                        @ ''ms'') # take 4 (performanceMetrics st)\<rparr>)))"

text \<open>
  The frame processor is a worklet that React memoizes with the dependencies
  \<^verbatim>\<open>[faceDetectionModel.model, isScanning, lastCaptureTime]\<close>: what it reads of
  \<open>isScanning\<close> and \<open>lastCaptureTime\<close> is the value of the render that created it
  (\<open>snap\<close>), while the setters it calls through \<^verbatim>\<open>runOnJS\<close> act on the state of the
  component (\<open>live\<close>), which the worklet sees only after the next render.
\<close>

definition frameProcessor_worklet ::
  "Runtime \<Rightarrow> FrameInput \<Rightarrow> VerifyScreen \<Rightarrow> VerifyScreen \<Rightarrow> VerifyScreen \<times> bool" where
  "frameProcessor_worklet rt inp snap live =
     (case frameProcessor rt inp
             (live\<lparr>isScanning := isScanning snap, lastCaptureTime := lastCaptureTime snap\<rparr>) of
        (st, fired) \<Rightarrow>
          (st\<lparr>isScanning := isScanning live,
              lastCaptureTime := (if fired then date_now inp else lastCaptureTime live)\<rparr>,
           fired))"

text \<open>
  A schedule of the trigger: frames, renders (after which the worklet reads the state
  as it then is) and changes of the busy flag by the verification runs. The trace
  lists the dispatches of a capture, each with the clock of its frame, and the renders.
\<close>

datatype TriggerEvent = FrameEvent FrameInput | Rerender | SetScanning bool

datatype TraceItem = Dispatched int | Rendered

fun run_worklet ::
  "Runtime \<Rightarrow> VerifyScreen \<times> VerifyScreen \<Rightarrow> TriggerEvent list \<Rightarrow> TraceItem list" where
  "run_worklet rt (live, snap) [] = []"
| "run_worklet rt (live, snap) (FrameEvent inp # evs) =
     (case frameProcessor_worklet rt inp snap live of
        (live', fired) \<Rightarrow>
          (if fired then [Dispatched (date_now inp)] else [])
            @ run_worklet rt (live', snap) evs)"
| "run_worklet rt (live, snap) (Rerender # evs) = Rendered # run_worklet rt (live, live) evs"
| "run_worklet rt (live, snap) (SetScanning b # evs) =
     run_worklet rt (live\<lparr>isScanning := b\<rparr>, snap) evs"

subsection \<open>The verification pipeline (captureAndVerify)\<close>

text \<open>
  What the collaborators answer during one run: the photo (its path), the resized
  image (its URI), the file read (base64), the decoding, the embedding model, the clock
  at the start and after the match, and an exception of the write of the gate command.
\<close>

record PipelineEnv =
  takePhoto :: "string + string"
  createResizedImage :: "string + string"
  readFile :: "string + string"
  decode_error :: "string option"
  runSync :: "string + number list"
  startTime :: int
  endTime :: int
  command_write_error :: "string option"

text \<open>The body of the \<^verbatim>\<open>try\<close>; the left summand is the message of what was thrown.\<close>

definition capture_body ::
  "Runtime \<Rightarrow> PipelineEnv \<Rightarrow> VerifyScreen \<Rightarrow> GateLink \<Rightarrow> Database
     \<Rightarrow> string + (VerifyScreen \<times> GateLink \<times> Database)" where
  "capture_body rt env st bt db =
     (case takePhoto env of
        Inl e \<Rightarrow> Inl e
      | Inr photo \<Rightarrow>
     (case createResizedImage env of
        Inl e \<Rightarrow> Inl e
      | Inr resizedImage \<Rightarrow>
     (case readFile env of
        Inl e \<Rightarrow> Inl e
      | Inr base64Resized \<Rightarrow>
     (case decode_error env of
        Some e \<Rightarrow> Inl e
      | None \<Rightarrow>
     (case runSync env of
        Inl e \<Rightarrow> Inl e
      | Inr emb \<Rightarrow>
     (case verifyFace rt (cachedUsers st) db emb of (result, db') \<Rightarrow>
        (let processingTime = endTime env - startTime env;
             verifiedUser =
               (if verified result
                then (case userId_opt result of
                        Some uid \<Rightarrow> (if uid = [] then None else Some uid)
                      | None \<Rightarrow> None)
                else None);
             (st1, bt1) =
               (case verifiedUser of
                  Some uid \<Rightarrow>
                    (st\<lparr>lastVerifiedUser := Some uid,
                        status := ''Verified: '' @ uid @ '' ('' @ show_int processingTime
                                    @ ''ms)''\<rparr>,
                     if isConnected bt \<and> isAuthenticated bt
                     then sendCommand (command_write_error env) bt ''FACE_DETECTED'' else bt)
                | None \<Rightarrow>
                    (st\<lparr>status :=
                          (case message result of
                             Some m \<Rightarrow> (if m = [] then ''Verification failed'' else m)
                           | None \<Rightarrow> ''Verification failed'')\<rparr>, bt))
         in Inr (st1\<lparr>performanceMetrics :=
                        (''Processed in '' @ show_int processingTime @ ''ms'')
                          # take 4 (performanceMetrics st1)\<rparr>, bt1, db'))))))))"

text \<open>
  \<^verbatim>\<open>captureAndVerify\<close>: the guard, the busy flag, the \<^verbatim>\<open>try\<close> with its \<^verbatim>\<open>catch\<close>, and
  the \<^verbatim>\<open>finally\<close> that clears the flag.
\<close>

definition captureAndVerify ::
  "Runtime \<Rightarrow> PipelineEnv \<Rightarrow> VerifyScreen \<Rightarrow> GateLink \<Rightarrow> Database
     \<Rightarrow> VerifyScreen \<times> GateLink \<times> Database" where
  "captureAndVerify rt env st bt db =
     (if \<not> camera st \<or> isScanning st then (st, bt, db)
      else
        (let st0 = st\<lparr>isScanning := True, status := ''Processing...'', error := None,
                      frameProcessorError := None\<rparr>
         in case (case capture_body rt env st0 bt db of
                    Inl e \<Rightarrow>
                      (st0\<lparr>error := Some e, status := ''Error during verification''\<rparr>, bt, db)
                  | Inr r \<Rightarrow> r) of
              (st2, bt2, db2) \<Rightarrow> (st2\<lparr>isScanning := False\<rparr>, bt2, db2)))"


text \<open>The state of the component when it is mounted (the defaults of its state variables).\<close>

definition initial_screen :: VerifyScreen where
  "initial_screen =
     \<lparr>camera = False, status = ''Initializing...'', isScanning = False,
      lastVerifiedUser = None, detections = [], error = None, frameProcessorError = None,
      cachedUsers = [], lastCaptureTime = 0, performanceMetrics = []\<rparr>"

subsection \<open>The population over the life of the application\<close>





section \<open>Invariants and predicates of the specification\<close>

text \<open>
  The invariant of the gate link: an authenticated link is connected, and an open
  connection of the device is one the hook knows of.
\<close>

definition link_inv :: "GateLink \<Rightarrow> bool" where
  "link_inv st =
     ((isAuthenticated st \<longrightarrow> isConnected st) \<and> (link_open st \<longrightarrow> isConnected st))"




section \<open>Binary64 values\<close>

lemma round_half_even_near:
  assumes "\<bar>z - of_int n\<bar> < 1 / 2"
  shows "round_half_even z = n"
proof (cases "of_int n \<le> z")
  case True
  with assms have "\<lfloor>z\<rfloor> = n" by (intro floor_unique) auto
  with assms True show ?thesis by (auto simp: round_half_even_def Let_def)
next
  case False
  with assms have f: "\<lfloor>z\<rfloor> = n - 1" by (intro floor_unique) auto
  with assms False show ?thesis by (auto simp: round_half_even_def Let_def)
qed

lemma binary64_exponent:
  assumes lo: "2 powr of_int k \<le> \<bar>x\<bar>" and hi: "\<bar>x\<bar> < 2 powr of_int (k + 1)"
  shows "x \<noteq> 0 \<and> \<lfloor>log 2 \<bar>x\<bar>\<rfloor> = k"
proof -
  have pos: "0 < \<bar>x\<bar>" using lo by (smt (verit) powr_gt_zero)
  then have x0: "x \<noteq> 0" by simp
  have e: "\<lfloor>log 2 \<bar>x\<bar>\<rfloor> = k" using pos lo hi by (simp add: floor_log_eq_powr_iff)
  from x0 e show ?thesis by simp
qed

lemma binary64_round:
  assumes lo: "2 powr of_int k \<le> \<bar>x\<bar>" and hi: "\<bar>x\<bar> < 2 powr of_int (k + 1)"
    and kmin: "- 1022 \<le> k"
    and n: "\<bar>x / 2 powr (of_int k - 52) - of_int n\<bar> < 1 / 2"
    and y: "y = of_int n * 2 powr (of_int k - 52)" and big: "\<bar>y\<bar> < 2 ^ 1024"
  shows "binary64 x = Num y"
proof -
  from binary64_exponent [OF lo hi] have x0: "x \<noteq> 0" and e: "\<lfloor>log 2 \<bar>x\<bar>\<rfloor> = k" by simp_all
  have r: "round_half_even (x / 2 powr (of_int k - 52)) = n"
    using n by (rule round_half_even_near)
  show ?thesis using x0 kmin big y by (simp add: binary64_def e Let_def r max_def)
qed

lemma binary64_overflow:
  assumes lo: "2 powr of_int k \<le> \<bar>x\<bar>" and hi: "\<bar>x\<bar> < 2 powr of_int (k + 1)"
    and kmin: "- 1022 \<le> k"
    and n: "\<bar>x / 2 powr (of_int k - 52) - of_int n\<bar> < 1 / 2"
    and y: "(y::real) = of_int n * 2 powr (of_int k - 52)" and big: "2 ^ 1024 \<le> \<bar>y\<bar>"
    and pos: "0 < x"
  shows "binary64 x = Infinity"
proof -
  from binary64_exponent [OF lo hi] have x0: "x \<noteq> 0" and e: "\<lfloor>log 2 \<bar>x\<bar>\<rfloor> = k" by simp_all
  have r: "round_half_even (x / 2 powr (of_int k - 52)) = n"
    using n by (rule round_half_even_near)
  have e': "max \<lfloor>log 2 \<bar>x\<bar>\<rfloor> (- 1022) = k" using e kmin by simp
  have "\<not> x < 0" using pos by simp
  then show ?thesis unfolding binary64_def Let_def e' r using x0 big y by simp
qed

lemma binary64_exact:
  assumes lo: "2 powr of_int k \<le> \<bar>x\<bar>" and hi: "\<bar>x\<bar> < 2 powr of_int (k + 1)"
    and kmin: "- 1022 \<le> k" and kmax: "k \<le> 1023"
    and m: "x = of_int m * 2 powr (of_int k - 52)"
  shows "binary64 x = Num x"
proof -
  have "x / 2 powr (of_int k - 52) = of_int m" by (subst m) simp
  then have n: "\<bar>x / 2 powr (of_int k - 52) - of_int m\<bar> < 1 / 2" by simp
  have "2 powr of_int (k + 1) \<le> (2::real) powr 1024" using kmax by (intro powr_mono) simp_all
  also have "(2::real) powr 1024 = 2 ^ 1024" by (simp add: powr_realpow [symmetric])
  finally have big: "\<bar>x\<bar> < 2 ^ 1024" using hi by simp
  show ?thesis by (rule binary64_round [OF lo hi kmin n m big])
qed

lemma binary64_0: "binary64 0 = Num 0"
  by (simp add: binary64_def)

lemma binary64_half: "binary64 (1 / 2) = Num (1 / 2)"
  by (rule binary64_exact [where k = "- 1" and m = "2 ^ 52"]) (simp_all add: powr_minus_divide)

lemma binary64_minus_half: "binary64 (- (1 / 2)) = Num (- (1 / 2))"
  by (rule binary64_exact [where k = "- 1" and m = "- (2 ^ 52)"]) (simp_all add: powr_minus_divide)

lemma binary64_quarter: "binary64 (1 / 4) = Num (1 / 4)"
  by (rule binary64_exact [where k = "- 2" and m = "2 ^ 52"]) (simp_all add: powr_minus_divide)

lemma binary64_51_64: "binary64 (51 / 64) = Num (51 / 64)"
  by (rule binary64_exact [where k = "- 1" and m = "51 * 2 ^ 47"]) (simp_all add: powr_minus_divide)

lemma binary64_2601_4096: "binary64 (2601 / 4096) = Num (2601 / 4096)"
  by (rule binary64_exact [where k = "- 1" and m = "2601 * 2 ^ 41"]) (simp_all add: powr_minus_divide)

lemma binary64_minus_2_31: "binary64 (- (1 / 2 ^ 31)) = Num (- (1 / 2 ^ 31))"
  by (rule binary64_exact [where k = "- 31" and m = "- (2 ^ 52)"]) (simp_all add: powr_minus_divide)

lemma binary64_2_62: "binary64 (1 / 2 ^ 62) = Num (1 / 2 ^ 62)"
  by (rule binary64_exact [where k = "- 62" and m = "2 ^ 52"]) (simp_all add: powr_minus_divide)

lemma binary64_absorbed: "binary64 (1 / 4 + 1 / 2 ^ 62) = Num (1 / 4)"
  by (rule binary64_round [where k = "- 2" and n = "2 ^ 52"]) (simp_all add: powr_minus_divide)

lemma binary64_minus_2_600: "binary64 (- (2 ^ 600)) = Num (- (2 ^ 600))"
  by (rule binary64_exact [where k = 600 and m = "- (2 ^ 52)"]) simp_all

lemma binary64_2_1200: "binary64 (2 ^ 1200) = Infinity"
  by (rule binary64_overflow [where k = 1200 and n = "2 ^ 52" and y = "2 ^ 1200 :: real"]) simp_all

lemma threshold_value: "threshold = Num (5404319552844595 / 2 ^ 53)"
  unfolding threshold_def
  by (rule binary64_round [where k = "- 1" and n = 5404319552844595])
     (simp_all add: powr_minus_divide)

lemma sqrt_2601_4096: "sqrt (2601 / 4096) = 51 / 64"
proof -
  have "sqrt ((51 / 64)\<^sup>2) = 51 / 64" by simp
  then show ?thesis by (simp add: power2_eq_square)
qed

lemma sqrt_quarter: "sqrt (1 / 4) = 1 / 2"
proof -
  have "sqrt ((1 / 2)\<^sup>2) = 1 / 2" by simp
  then show ?thesis by (simp add: power2_eq_square)
qed

lemma binary64_threshold_exact:
  "binary64 (5404319552844595 / 2 ^ 53) = Num (5404319552844595 / 2 ^ 53)"
  by (rule binary64_exact [where k = "- 1" and m = 5404319552844595])
     (simp_all add: powr_minus_divide)

lemma binary64_threshold_square:
  "binary64 (5404319552844595 / 2 ^ 53 * (5404319552844595 / 2 ^ 53))
     = Num (3242591731706757 / 2 ^ 53)"
  by (rule binary64_round [where k = "- 2" and n = 6485183463413514])
     (simp_all add: powr_minus_divide)

lemma binary64_threshold_square_exact:
  "binary64 (3242591731706757 / 2 ^ 53) = Num (3242591731706757 / 2 ^ 53)"
  by (rule binary64_exact [where k = "- 2" and m = 6485183463413514])
     (simp_all add: powr_minus_divide)

lemma binary64_threshold_sqrt:
  "binary64 (sqrt (3242591731706757 / 2 ^ 53)) = Num (5404319552844595 / 2 ^ 53)"
proof -
  let ?s = "sqrt (3242591731706757 / 2 ^ 53)"
  have a: "10808639105689189 / 2 ^ 54 < ?s"
    by (rule real_less_rsqrt) (simp add: power2_eq_square)
  have b: "?s < 10808639105689191 / 2 ^ 54"
    by (rule real_less_lsqrt) (simp_all add: power2_eq_square)
  show ?thesis
  proof (rule binary64_round [where k = "- 1" and n = 5404319552844595])
    show "2 powr of_int (- 1) \<le> \<bar>?s\<bar>" using a by (simp add: powr_minus_divide)
    show "\<bar>?s\<bar> < 2 powr of_int (- 1 + 1)" using b by simp
    show "- 1022 \<le> (- 1 :: int)" by simp
    show "\<bar>?s / 2 powr (of_int (- 1) - 52) - of_int 5404319552844595\<bar> < 1 / 2"
    proof -
      define z where "z = ?s * 2 ^ 53"
      have z1: "5404319552844595 - 1 / 2 < z" using a by (simp add: z_def)
      have z2: "z < 5404319552844595 + 1 / 2" using b by (simp add: z_def)
      have e: "?s / 2 powr (of_int (- 1) - 52) = z" by (simp add: z_def powr_minus_divide)
      show ?thesis unfolding e abs_less_iff using z1 z2 by simp
    qed
    show "(5404319552844595 / 2 ^ 53 :: real)
            = of_int 5404319552844595 * 2 powr (of_int (- 1) - 52)"
      by (simp add: powr_minus_divide)
    show "\<bar>5404319552844595 / 2 ^ 53 :: real\<bar> < 2 ^ 1024" by simp
  qed
qed

section \<open>The matcher: distance, scan and outcome\<close>

lemma number_less_irrefl: "\<not> number_less a a"
  by (cases a) auto

lemma number_less_trans: "number_less a b \<Longrightarrow> number_less b c \<Longrightarrow> number_less a c"
  by (cases a; cases b; cases c) auto

lemma number_less_candidate: "number_less a b \<Longrightarrow> number_less a Infinity"
  by (cases a; cases b) auto

lemma number_less_linear:
  "number_less a Infinity \<Longrightarrow> number_less b Infinity \<Longrightarrow>
     number_less a b \<or> number_less b a \<or> a = b"
  by (cases a; cases b) auto

lemma loop_foldl:
  "map (\<lambda>u. calculateEuclideanDistance rt e (embedding u)) users = map Inr ds \<Longrightarrow>
     closestMatch_loop rt e users cm = Inr (foldl closer cm (zip ds users))"
proof (induction users arbitrary: ds cm)
  case Nil
  then show ?case by simp
next
  case (Cons u users)
  then obtain d ds' where ds: "ds = d # ds'" by (cases ds) auto
  with Cons.prems have d: "calculateEuclideanDistance rt e (embedding u) = Inr d"
    and rest: "map (\<lambda>u. calculateEuclideanDistance rt e (embedding u)) users = map Inr ds'"
    by simp_all
  show ?case
    using Cons.IH [OF rest] by (simp add: ds d closer_def)
qed

lemma loop_throws:
  "\<exists>u\<in>set users. \<exists>m. calculateEuclideanDistance rt e (embedding u) = Inl m \<Longrightarrow>
     \<exists>m. closestMatch_loop rt e users cm = Inl m"
proof (induction users arbitrary: cm)
  case Nil
  then show ?case by simp
next
  case (Cons u users)
  show ?case
  proof (cases "calculateEuclideanDistance rt e (embedding u)")
    case (Inl m)
    then show ?thesis by simp
  next
    case (Inr d)
    with Cons.prems have "\<exists>u\<in>set users. \<exists>m. calculateEuclideanDistance rt e (embedding u) = Inl m"
      by auto
    from Cons.IH [OF this] show ?thesis by (simp add: Inr)
  qed
qed

lemma all_computed:
  "\<forall>u\<in>set users. \<forall>m. calculateEuclideanDistance rt e (embedding u) \<noteq> Inl m \<Longrightarrow>
     \<exists>ds. map (\<lambda>u. calculateEuclideanDistance rt e (embedding u)) users = map Inr ds"
proof (induction users)
  case Nil
  then show ?case by simp
next
  case (Cons u users)
  then obtain ds where ds: "map (\<lambda>u. calculateEuclideanDistance rt e (embedding u)) users = map Inr ds"
    by auto
  from Cons.prems obtain d where "calculateEuclideanDistance rt e (embedding u) = Inr d"
    by (cases "calculateEuclideanDistance rt e (embedding u)") auto
  with ds have "map (\<lambda>u. calculateEuclideanDistance rt e (embedding u)) (u # users) = map Inr (d # ds)"
    by simp
  then show ?case by blast
qed

lemma foldl_closer_select:
  "(if \<exists>j<length ps. number_less (fst (ps ! j)) Infinity
    then \<exists>i<length ps.
           number_less (fst (ps ! i)) Infinity
         \<and> (\<forall>j<length ps. \<not> number_less (fst (ps ! j)) (fst (ps ! i)))
         \<and> (\<forall>j<i. number_less (fst (ps ! j)) Infinity \<longrightarrow> number_less (fst (ps ! i)) (fst (ps ! j)))
         \<and> foldl closer (Infinity, None) ps = (fst (ps ! i), Some (snd (ps ! i)))
    else foldl closer (Infinity, None) ps = (Infinity, None))"
proof (induction ps rule: rev_induct)
  case Nil
  show ?case by simp
next
  case (snoc p ps)
  let ?n = "length ps"
  have nth_old: "\<And>j. j < ?n \<Longrightarrow> (ps @ [p]) ! j = ps ! j" by (simp add: nth_append)
  have nth_new: "(ps @ [p]) ! ?n = p" by simp
  show ?case
  proof (cases "\<exists>j<?n. number_less (fst (ps ! j)) Infinity")
    case False
    with snoc have f: "foldl closer (Infinity, None) ps = (Infinity, None)" by simp
    show ?thesis
    proof (cases "number_less (fst p) Infinity")
      case True
      have ex: "\<exists>j<length (ps @ [p]). number_less (fst ((ps @ [p]) ! j)) Infinity"
        using True nth_new by (intro exI [of _ ?n]) simp
      have a: "\<forall>j<length (ps @ [p]). \<not> number_less (fst ((ps @ [p]) ! j)) (fst p)"
      proof (intro allI impI)
        fix j assume "j < length (ps @ [p])"
        then consider "j < ?n" | "j = ?n" by fastforce
        then show "\<not> number_less (fst ((ps @ [p]) ! j)) (fst p)"
        proof cases
          case 1
          with False have "\<not> number_less (fst (ps ! j)) Infinity" by blast
          then have "\<not> number_less (fst (ps ! j)) (fst p)"
            using number_less_candidate by blast
          with 1 show ?thesis by (simp add: nth_old)
        next
          case 2
          then show ?thesis by (simp add: number_less_irrefl)
        qed
      qed
      have b: "\<forall>j<?n. number_less (fst ((ps @ [p]) ! j)) Infinity \<longrightarrow>
                  number_less (fst p) (fst ((ps @ [p]) ! j))"
        using False by (simp add: nth_old)
      have c: "foldl closer (Infinity, None) (ps @ [p]) = (fst p, Some (snd p))"
        using f True by (simp add: closer_def)
      have "\<exists>i<length (ps @ [p]).
           number_less (fst ((ps @ [p]) ! i)) Infinity
         \<and> (\<forall>j<length (ps @ [p]). \<not> number_less (fst ((ps @ [p]) ! j)) (fst ((ps @ [p]) ! i)))
         \<and> (\<forall>j<i. number_less (fst ((ps @ [p]) ! j)) Infinity \<longrightarrow>
               number_less (fst ((ps @ [p]) ! i)) (fst ((ps @ [p]) ! j)))
         \<and> foldl closer (Infinity, None) (ps @ [p])
             = (fst ((ps @ [p]) ! i), Some (snd ((ps @ [p]) ! i)))"
        using True a b c by (intro exI [of _ ?n]) (simp add: nth_new)
      with ex show ?thesis by simp
    next
      case nc: False
      have "\<not> (\<exists>j<length (ps @ [p]). number_less (fst ((ps @ [p]) ! j)) Infinity)"
      proof
        assume "\<exists>j<length (ps @ [p]). number_less (fst ((ps @ [p]) ! j)) Infinity"
        then obtain j where j: "j < length (ps @ [p])"
          and cj: "number_less (fst ((ps @ [p]) ! j)) Infinity" by blast
        from j consider "j < ?n" | "j = ?n" by fastforce
        then show False
        proof cases
          case 1
          with cj False show False by (auto simp: nth_old)
        next
          case 2
          with cj nc show False by simp
        qed
      qed
      moreover have "foldl closer (Infinity, None) (ps @ [p]) = (Infinity, None)"
        using f nc by (simp add: closer_def)
      ultimately show ?thesis by simp
    qed
  next
    case True
    with snoc obtain i where i: "i < ?n"
      and ci: "number_less (fst (ps ! i)) Infinity"
      and mn: "\<forall>j<?n. \<not> number_less (fst (ps ! j)) (fst (ps ! i))"
      and fs: "\<forall>j<i. number_less (fst (ps ! j)) Infinity \<longrightarrow> number_less (fst (ps ! i)) (fst (ps ! j))"
      and f: "foldl closer (Infinity, None) ps = (fst (ps ! i), Some (snd (ps ! i)))"
      by auto
    have ex: "\<exists>j<length (ps @ [p]). number_less (fst ((ps @ [p]) ! j)) Infinity"
      using i ci by (intro exI [of _ i]) (simp add: nth_old)
    show ?thesis
    proof (cases "number_less (fst p) (fst (ps ! i))")
      case lt: True
      have cp: "number_less (fst p) Infinity" using lt by (rule number_less_candidate)
      have a: "\<forall>j<length (ps @ [p]). \<not> number_less (fst ((ps @ [p]) ! j)) (fst p)"
      proof (intro allI impI)
        fix j assume "j < length (ps @ [p])"
        then consider "j < ?n" | "j = ?n" by fastforce
        then show "\<not> number_less (fst ((ps @ [p]) ! j)) (fst p)"
        proof cases
          case 1
          have "\<not> number_less (fst (ps ! j)) (fst p)"
          proof
            assume "number_less (fst (ps ! j)) (fst p)"
            then have "number_less (fst (ps ! j)) (fst (ps ! i))"
              using lt by (rule number_less_trans)
            with mn 1 show False by blast
          qed
          with 1 show ?thesis by (simp add: nth_old)
        next
          case 2
          then show ?thesis by (simp add: number_less_irrefl)
        qed
      qed
      have b: "\<forall>j<?n. number_less (fst ((ps @ [p]) ! j)) Infinity \<longrightarrow>
                  number_less (fst p) (fst ((ps @ [p]) ! j))"
      proof (intro allI impI)
        fix j assume j: "j < ?n" and "number_less (fst ((ps @ [p]) ! j)) Infinity"
        then have cj: "number_less (fst (ps ! j)) Infinity" by (simp add: nth_old)
        from number_less_linear [OF ci cj] mn j
        have "number_less (fst (ps ! i)) (fst (ps ! j)) \<or> fst (ps ! i) = fst (ps ! j)" by blast
        then have "number_less (fst p) (fst (ps ! j))"
          using lt number_less_trans by auto
        with j show "number_less (fst p) (fst ((ps @ [p]) ! j))" by (simp add: nth_old)
      qed
      have c: "foldl closer (Infinity, None) (ps @ [p]) = (fst p, Some (snd p))"
        using f lt by (simp add: closer_def)
      have "\<exists>k<length (ps @ [p]).
           number_less (fst ((ps @ [p]) ! k)) Infinity
         \<and> (\<forall>j<length (ps @ [p]). \<not> number_less (fst ((ps @ [p]) ! j)) (fst ((ps @ [p]) ! k)))
         \<and> (\<forall>j<k. number_less (fst ((ps @ [p]) ! j)) Infinity \<longrightarrow>
               number_less (fst ((ps @ [p]) ! k)) (fst ((ps @ [p]) ! j)))
         \<and> foldl closer (Infinity, None) (ps @ [p])
             = (fst ((ps @ [p]) ! k), Some (snd ((ps @ [p]) ! k)))"
        using cp a b c by (intro exI [of _ ?n]) (simp add: nth_new)
      with ex show ?thesis by simp
    next
      case ge: False
      have a: "\<forall>j<length (ps @ [p]). \<not> number_less (fst ((ps @ [p]) ! j)) (fst (ps ! i))"
      proof (intro allI impI)
        fix j assume "j < length (ps @ [p])"
        then consider "j < ?n" | "j = ?n" by fastforce
        then show "\<not> number_less (fst ((ps @ [p]) ! j)) (fst (ps ! i))"
        proof cases
          case 1
          with mn show ?thesis by (simp add: nth_old)
        next
          case 2
          with ge show ?thesis by simp
        qed
      qed
      have b: "\<forall>j<i. number_less (fst ((ps @ [p]) ! j)) Infinity \<longrightarrow>
                  number_less (fst (ps ! i)) (fst ((ps @ [p]) ! j))"
        using fs i by (simp add: nth_old)
      have c: "foldl closer (Infinity, None) (ps @ [p]) = (fst (ps ! i), Some (snd (ps ! i)))"
        using f ge by (simp add: closer_def)
      have "\<exists>k<length (ps @ [p]).
           number_less (fst ((ps @ [p]) ! k)) Infinity
         \<and> (\<forall>j<length (ps @ [p]). \<not> number_less (fst ((ps @ [p]) ! j)) (fst ((ps @ [p]) ! k)))
         \<and> (\<forall>j<k. number_less (fst ((ps @ [p]) ! j)) Infinity \<longrightarrow>
               number_less (fst ((ps @ [p]) ! k)) (fst ((ps @ [p]) ! j)))
         \<and> foldl closer (Infinity, None) (ps @ [p])
             = (fst ((ps @ [p]) ! k), Some (snd ((ps @ [p]) ! k)))"
        using i ci a b c by (intro exI [of _ i]) (simp add: nth_old)
      with ex show ?thesis by simp
    qed
  qed
qed

lemma those_numbers: "those (map number_of (map (\<lambda>r. JNumber (Num r)) rs)) = Some (map Num rs)"
  by (induction rs) simp_all

lemma reduce_zip:
  assumes "length emb1 = length ys"
  shows "foldl (\<lambda>sum (val, i). number_plus sum (p (number_minus val (ys ! i)))) a
           (zip emb1 [0..<length emb1])
       = foldl (\<lambda>sum (val, y). number_plus sum (p (number_minus val y))) a (zip emb1 ys)"
proof -
  have z1: "zip emb1 [0..<length emb1] = map (\<lambda>i. (emb1 ! i, i)) [0..<length emb1]"
    by (rule nth_equalityI) simp_all
  have z2: "zip emb1 ys = map (\<lambda>i. (emb1 ! i, ys ! i)) [0..<length emb1]"
    using assms by (intro nth_equalityI) simp_all
  show ?thesis unfolding z1 z2 foldl_map by simp
qed

lemma calculateEuclideanDistance_numbers:
  assumes "length emb1 = length rs"
  shows "calculateEuclideanDistance rt emb1 (stored_array rs)
       = Inr (Math_sqrt rt
           (foldl (\<lambda>sum (val, y). number_plus sum (Math_pow_2 rt (number_minus val y)))
              (Num 0) (zip emb1 (map Num rs))))"
proof -
  have "calculateEuclideanDistance rt emb1 (stored_array rs)
       = Inr (Math_sqrt rt
           (foldl (\<lambda>sum (val, i). number_plus sum (Math_pow_2 rt (number_minus val (map Num rs ! i))))
              (Num 0) (zip emb1 [0..<length emb1])))"
    unfolding calculateEuclideanDistance_def stored_array_def
    using assms by (simp add: those_numbers del: map_map)
  also have "\<dots> = Inr (Math_sqrt rt
           (foldl (\<lambda>sum (val, y). number_plus sum (Math_pow_2 rt (number_minus val y)))
              (Num 0) (zip emb1 (map Num rs))))"
    using reduce_zip [of emb1 "map Num rs" "Math_pow_2 rt" "Num 0"] assms by simp
  finally show ?thesis .
qed

lemma engine_zero_tail:
  "number_plus a (Num 0) = a \<Longrightarrow>
     foldl (\<lambda>sum (val, y). number_plus sum (rounded_pow_2 (number_minus val y))) a
       (replicate n (Num 0, Num 0)) = a"
  by (induction n) (simp_all add: number_minus_def binary64_0)

lemma engine_distance:
  assumes "length xs = length ys"
    and "foldl (\<lambda>sum (val, y). number_plus sum (rounded_pow_2 (number_minus val y))) (Num 0)
           (zip (map Num xs) (map Num ys)) = a"
    and "number_plus a (Num 0) = a"
  shows "calculateEuclideanDistance engine (probe (xs @ replicate n 0))
           (stored_array (ys @ replicate n 0)) = Inr (rounded_sqrt a)"
proof -
  have "length (probe (xs @ replicate n 0)) = length (ys @ replicate n 0)"
    using assms(1) by (simp add: probe_def)
  from calculateEuclideanDistance_numbers [OF this, of engine]
  show ?thesis using assms by (simp add: probe_def engine_def engine_zero_tail)
qed

lemma replicate_128: "replicate 128 x = x # replicate 127 x"
proof -
  have "(128::nat) = Suc 127" by simp
  then show ?thesis by (simp only: replicate_Suc)
qed

lemma replicate_127: "replicate 127 x = x # replicate 126 x"
proof -
  have "(127::nat) = Suc 126" by simp
  then show ?thesis by (simp only: replicate_Suc)
qed

lemma distance_same:
  "calculateEuclideanDistance engine (probe (replicate 128 0)) (stored_array (replicate 128 0))
     = Inr (Num 0)"
  using engine_distance [of "[]" "[]" "Num 0" 128] by (simp add: binary64_0)

lemma distance_51_64:
  "calculateEuclideanDistance engine (probe (51 / 64 # replicate 127 0))
     (stored_array (replicate 128 0)) = Inr (Num (51 / 64))"
proof -
  have f: "foldl (\<lambda>sum (val, y). number_plus sum (rounded_pow_2 (number_minus val y))) (Num 0)
           (zip (map Num [51 / 64]) (map Num [0])) = Num (2601 / 4096)"
    by (simp add: number_minus_def binary64_51_64 binary64_2601_4096)
  have t: "number_plus (Num (2601 / 4096)) (Num 0) = Num (2601 / 4096)"
    by (simp add: binary64_2601_4096)
  have s: "rounded_sqrt (Num (2601 / 4096)) = Num (51 / 64)"
    unfolding rounded_sqrt.simps sqrt_2601_4096 by (simp add: binary64_51_64)
  from engine_distance [of "[51 / 64]" "[0]", OF _ f t, of 127]
  show ?thesis unfolding s by (simp add: replicate_128)
qed

lemma binary64_minus_51_64: "binary64 (- (51 / 64)) = Num (- (51 / 64))"
  by (rule binary64_exact [where k = "- 1" and m = "- (51 * 2 ^ 47)"])
     (simp_all add: powr_minus_divide)

lemma replicate_128_2: "replicate 128 x = x # x # replicate 126 x"
  by (simp only: replicate_128 replicate_127)

lemma distance_far:
  "calculateEuclideanDistance engine (probe (replicate 128 0))
     (stored_array (51 / 64 # replicate 127 0)) = Inr (Num (51 / 64))"
proof -
  have f: "foldl (\<lambda>sum (val, y). number_plus sum (rounded_pow_2 (number_minus val y))) (Num 0)
           (zip (map Num [0]) (map Num [51 / 64])) = Num (2601 / 4096)"
    using binary64_minus_51_64 binary64_2601_4096 by (simp add: number_minus_def)
  have t: "number_plus (Num (2601 / 4096)) (Num 0) = Num (2601 / 4096)"
    by (simp add: binary64_2601_4096)
  have s: "rounded_sqrt (Num (2601 / 4096)) = Num (51 / 64)"
    unfolding rounded_sqrt.simps sqrt_2601_4096 by (simp add: binary64_51_64)
  from engine_distance [of "[0]" "[51 / 64]", OF _ f t, of 127]
  show ?thesis unfolding s by (simp add: replicate_128)
qed

lemma sqrt_quarter_rounded: "rounded_sqrt (Num (1 / 4)) = Num (1 / 2)"
  unfolding rounded_sqrt.simps sqrt_quarter by (simp add: binary64_half)

lemma distance_near_tie:
  "calculateEuclideanDistance engine (probe (replicate 128 0))
     (stored_array (1 / 2 # 1 / 2 ^ 31 # replicate 126 0)) = Inr (Num (1 / 2))"
proof -
  have f: "foldl (\<lambda>sum (val, y). number_plus sum (rounded_pow_2 (number_minus val y))) (Num 0)
           (zip (map Num [0, 0]) (map Num [1 / 2, 1 / 2 ^ 31])) = Num (1 / 4)"
    using binary64_minus_half binary64_quarter binary64_minus_2_31 binary64_2_62
      binary64_absorbed
    by (simp add: number_minus_def)
  have t: "number_plus (Num (1 / 4)) (Num 0) = Num (1 / 4)"
    by (simp add: binary64_quarter)
  from engine_distance [of "[0, 0]" "[1 / 2, 1 / 2 ^ 31]", OF _ f t, of 126]
  show ?thesis unfolding sqrt_quarter_rounded by (simp add: replicate_128_2)
qed

lemma distance_half:
  "calculateEuclideanDistance engine (probe (replicate 128 0))
     (stored_array (1 / 2 # 0 # replicate 126 0)) = Inr (Num (1 / 2))"
proof -
  have f: "foldl (\<lambda>sum (val, y). number_plus sum (rounded_pow_2 (number_minus val y))) (Num 0)
           (zip (map Num [0, 0]) (map Num [1 / 2, 0])) = Num (1 / 4)"
    using binary64_minus_half binary64_quarter binary64_0
    by (simp add: number_minus_def)
  have t: "number_plus (Num (1 / 4)) (Num 0) = Num (1 / 4)"
    by (simp add: binary64_quarter)
  from engine_distance [of "[0, 0]" "[1 / 2, 0]", OF _ f t, of 126]
  show ?thesis unfolding sqrt_quarter_rounded by (simp add: replicate_128_2)
qed

lemma distance_overflow:
  "calculateEuclideanDistance engine (probe (replicate 128 0))
     (stored_array (2 ^ 600 # replicate 127 0)) = Inr Infinity"
proof -
  have f: "foldl (\<lambda>sum (val, y). number_plus sum (rounded_pow_2 (number_minus val y))) (Num 0)
           (zip (map Num [0]) (map Num [2 ^ 600])) = Infinity"
    using binary64_minus_2_600 binary64_2_1200 by (simp add: number_minus_def)
  have t: "number_plus Infinity (Num 0) = Infinity" by simp
  from engine_distance [of "[0]" "[2 ^ 600]", OF _ f t, of 127]
  show ?thesis by (simp add: replicate_128)
qed

lemma show_nat_128: "show_nat 128 = ''128''"
  by (simp add: show_nat.simps digit_char_def)

lemma show_nat_1: "show_nat (Suc 0) = ''1''"
  by (simp add: show_nat.simps digit_char_def)

lemma distance_mismatch:
  "calculateEuclideanDistance engine (probe (replicate 128 0)) (stored_array [0])
     = Inl ''Embedding length mismatch: 128 vs 1''"
  by (simp add: calculateEuclideanDistance_def stored_array_def probe_def show_nat_128 show_nat_1)

lemma show_nat_80: "show_nat 80 = ''80''"
  by (simp add: show_nat.simps digit_char_def)

lemma toFixed_51_64: "toFixed ts (Num (51 / 64)) 2 = ''0.80''"
  by (simp add: toFixed_def show_nat_80)

lemma euclidean_padded:
  "length xs = length ys \<Longrightarrow>
     euclidean (xs @ replicate n 0) (ys @ replicate n 0) = euclidean xs ys"
proof -
  assume l: "length xs = length ys"
  have "(\<Sum>i<length xs + n. ((xs @ replicate n 0) ! i - (ys @ replicate n 0) ! i) ^ 2)
          = (\<Sum>i<length xs. (xs ! i - ys ! i) ^ 2)"
  proof (induction n)
    case 0
    show ?case by simp
  next
    case (Suc n)
    have "(xs @ replicate (Suc n) 0) = (xs @ replicate n 0) @ [0::real]"
      by (simp add: replicate_append_same)
    moreover have "(ys @ replicate (Suc n) 0) = (ys @ replicate n 0) @ [0::real]"
      by (simp add: replicate_append_same)
    ultimately have "(\<Sum>i<length xs + Suc n.
            ((xs @ replicate (Suc n) 0) ! i - (ys @ replicate (Suc n) 0) ! i) ^ 2)
        = (\<Sum>i<length xs + n.
            (((xs @ replicate n 0) @ [0]) ! i - ((ys @ replicate n 0) @ [0]) ! i) ^ 2)
          + ((((xs @ replicate n 0) @ [0]) ! (length xs + n)
               - ((ys @ replicate n 0) @ [0]) ! (length xs + n)) ^ 2)"
      by simp
    also have "(((xs @ replicate n 0) @ [0::real]) ! (length xs + n)
               - ((ys @ replicate n 0) @ [0]) ! (length xs + n)) = 0"
      using l by (simp add: nth_append)
    also have "(\<Sum>i<length xs + n.
            (((xs @ replicate n 0) @ [0]) ! i - ((ys @ replicate n 0) @ [0]) ! i) ^ 2)
        = (\<Sum>i<length xs + n. ((xs @ replicate n 0) ! i - (ys @ replicate n 0) ! i) ^ 2)"
      using l by (intro sum.cong) (simp_all add: nth_append)
    finally show ?case using Suc by simp
  qed
  then show ?thesis by (simp add: euclidean_def)
qed

lemma euclidean_tie:
  "euclidean (replicate 128 0) (1 / 2 # 0 # replicate 126 0)
     < euclidean (replicate 128 0) (1 / 2 # 1 / 2 ^ 31 # replicate 126 0)"
proof -
  have two: "\<And>f :: nat \<Rightarrow> real. (\<Sum>i<2. f i) = f 0 + f 1"
    by (simp add: numeral_2_eq_2)
  have a: "euclidean (replicate 128 0) (1 / 2 # 0 # replicate 126 0) = 1 / 2"
    using euclidean_padded [of "[0, 0]" "[1 / 2, 0]" 126] sqrt_quarter
    by (simp add: replicate_128_2 euclidean_def two power2_eq_square)
  have b: "euclidean (replicate 128 0) (1 / 2 # 1 / 2 ^ 31 # replicate 126 0)
             = sqrt (1 / 4 + 1 / 2 ^ 62)"
    using euclidean_padded [of "[0, 0]" "[1 / 2, 1 / 2 ^ 31]" 126]
    by (simp add: replicate_128_2 euclidean_def two power2_eq_square)
  have "(1 / 2 :: real) < sqrt (1 / 4 + 1 / 2 ^ 62)"
    by (rule real_less_rsqrt) (simp add: power2_eq_square)
  with a b show ?thesis by simp
qed

lemma distance_threshold:
  "calculateEuclideanDistance engine (probe (5404319552844595 / 2 ^ 53 # replicate 127 0))
     (stored_array (replicate 128 0)) = Inr (Num (5404319552844595 / 2 ^ 53))"
proof -
  have f: "foldl (\<lambda>sum (val, y). number_plus sum (rounded_pow_2 (number_minus val y))) (Num 0)
           (zip (map Num [5404319552844595 / 2 ^ 53]) (map Num [0]))
         = Num (3242591731706757 / 2 ^ 53)"
    using binary64_threshold_exact binary64_threshold_square binary64_threshold_square_exact
    by (simp add: number_minus_def)
  have t: "number_plus (Num (3242591731706757 / 2 ^ 53)) (Num 0) = Num (3242591731706757 / 2 ^ 53)"
    using binary64_threshold_square_exact by simp
  have s: "rounded_sqrt (Num (3242591731706757 / 2 ^ 53)) = Num (5404319552844595 / 2 ^ 53)"
    using binary64_threshold_sqrt by simp
  from engine_distance [of "[5404319552844595 / 2 ^ 53]" "[0]", OF _ f t, of 127]
  show ?thesis unfolding s by (simp add: replicate_128)
qed

lemma show_nat_60: "show_nat 60 = ''60''"
  by (simp add: show_nat.simps digit_char_def)

lemma toFixed_threshold: "toFixed ts (Num (5404319552844595 / 2 ^ 53)) 2 = ''0.60''"
  by (simp add: toFixed_def show_nat_60)

lemma euclidean_threshold:
  "euclidean (5404319552844595 / 2 ^ 53 # replicate 127 0) (replicate 128 0) < 6 / 10"
proof -
  have "euclidean (5404319552844595 / 2 ^ 53 # replicate 127 0) (replicate 128 0)
          = 5404319552844595 / 2 ^ 53"
    using euclidean_padded [of "[5404319552844595 / 2 ^ 53]" "[0]" 127]
    by (simp add: replicate_128 euclidean_def)
  then show ?thesis by simp
qed

lemma loop_Inl:
  "closestMatch_loop rt e users cm = Inl err \<Longrightarrow>
     \<exists>u\<in>set users. calculateEuclideanDistance rt e (embedding u) = Inl err"
  by (induction users arbitrary: cm) (auto split: sum.splits)

lemma loop_Inr:
  "closestMatch_loop rt e users cm = Inr r \<Longrightarrow>
     \<exists>ds. map (\<lambda>u. calculateEuclideanDistance rt e (embedding u)) users = map Inr ds"
proof (rule all_computed, rule ccontr)
  assume r: "closestMatch_loop rt e users cm = Inr r"
  assume "\<not> (\<forall>u\<in>set users. \<forall>m. calculateEuclideanDistance rt e (embedding u) \<noteq> Inl m)"
  then have "\<exists>u\<in>set users. \<exists>m. calculateEuclideanDistance rt e (embedding u) = Inl m" by blast
  from loop_throws [OF this, of cm] r show False by auto
qed

lemma scan_select:
  assumes l: "length ds = length users"
  shows "(if \<exists>j<length users. number_less (ds ! j) Infinity
          then \<exists>i<length users.
                 number_less (ds ! i) Infinity
               \<and> (\<forall>j<length users. \<not> number_less (ds ! j) (ds ! i))
               \<and> (\<forall>j<i. number_less (ds ! j) Infinity \<longrightarrow> number_less (ds ! i) (ds ! j))
               \<and> foldl closer (Infinity, None) (zip ds users) = (ds ! i, Some (users ! i))
          else foldl closer (Infinity, None) (zip ds users) = (Infinity, None))"
proof -
  let ?ps = "zip ds users"
  have n: "length ?ps = length users" using l by simp
  have f: "\<And>j. j < length users \<Longrightarrow> fst (?ps ! j) = ds ! j \<and> snd (?ps ! j) = users ! j"
    using l by simp
  have c: "(\<exists>j<length ?ps. number_less (fst (?ps ! j)) Infinity)
             = (\<exists>j<length users. number_less (ds ! j) Infinity)"
    using n f by auto
  show ?thesis
  proof (cases "\<exists>j<length users. number_less (ds ! j) Infinity")
    case True
    with c foldl_closer_select [of ?ps] obtain i where i: "i < length ?ps"
      and ci: "number_less (fst (?ps ! i)) Infinity"
      and mn: "\<forall>j<length ?ps. \<not> number_less (fst (?ps ! j)) (fst (?ps ! i))"
      and fs: "\<forall>j<i. number_less (fst (?ps ! j)) Infinity \<longrightarrow>
                  number_less (fst (?ps ! i)) (fst (?ps ! j))"
      and r: "foldl closer (Infinity, None) ?ps = (fst (?ps ! i), Some (snd (?ps ! i)))"
      by auto
    from i n have iu: "i < length users" by simp
    have 1: "number_less (ds ! i) Infinity" using ci f [OF iu] by simp
    have 2: "\<forall>j<length users. \<not> number_less (ds ! j) (ds ! i)"
      using mn n f iu by auto
    have 3: "\<forall>j<i. number_less (ds ! j) Infinity \<longrightarrow> number_less (ds ! i) (ds ! j)"
    proof (intro allI impI)
      fix j assume j: "j < i" and cj: "number_less (ds ! j) Infinity"
      from j iu have ju: "j < length users" by simp
      from fs j cj f [OF ju] f [OF iu] show "number_less (ds ! i) (ds ! j)" by auto
    qed
    have 4: "foldl closer (Infinity, None) ?ps = (ds ! i, Some (users ! i))"
      using r f [OF iu] by simp
    from iu 1 2 3 4 True show ?thesis by auto
  next
    case False
    with c foldl_closer_select [of ?ps] show ?thesis by auto
  qed
qed

text \<open>
  Claim C1, as amended. The distance to a stored array of numbers of the length of the
  probe is the square root of the sum of the squared differences, every operation in
  floating point and the sum taken from the left. For a probe of length 128 and a
  non-empty population: when a distance computation throws, the outcome is unverified
  and names no user. Otherwise every distance computation returns a number (\<open>ds\<close>,
  in population order).
  If one of them is below \<^verbatim>\<open>Infinity\<close>, the scan ends at the first user at which the
  computed distance is minimal (no computed distance is smaller, and every earlier one
  that is below \<^verbatim>\<open>Infinity\<close> is strictly larger); that user and distance are what a
  verified outcome returns (when the distance is below the threshold and the event is
  written) and what the no-match message names (when the distance is not below the
  threshold). If none is below \<^verbatim>\<open>Infinity\<close>, no user is selected and the message names
  none.
\<close>

theorem verifyFace_nearest_neighbor:
  assumes len: "length e = 128" and ne: "users \<noteq> []"
  shows "(\<forall>rs. length rs = length e \<longrightarrow>
            calculateEuclideanDistance rt e (stored_array rs)
              = Inr (Math_sqrt rt
                  (foldl (\<lambda>sum (val, y). number_plus sum (Math_pow_2 rt (number_minus val y)))
                     (Num 0) (zip e (map Num rs)))))
       \<and> (if \<exists>u\<in>set users. \<exists>err. calculateEuclideanDistance rt e (embedding u) = Inl err
          then fst (verifyFace rt users db e)
                 = \<lparr>verified = False, userId_opt = None, distance = None,
                    message = Some ''Error during verification''\<rparr>
          else \<exists>ds.
            map (\<lambda>u. calculateEuclideanDistance rt e (embedding u)) users = map Inr ds
            \<and> (if \<exists>j<length users. number_less (ds ! j) Infinity
               then \<exists>i<length users.
                 number_less (ds ! i) Infinity
               \<and> (\<forall>j<length users. \<not> number_less (ds ! j) (ds ! i))
               \<and> (\<forall>j<i. number_less (ds ! j) Infinity \<longrightarrow> number_less (ds ! i) (ds ! j))
               \<and> closestMatch_loop rt e users (Infinity, None) = Inr (ds ! i, Some (users ! i))
               \<and> fst (verifyFace rt users db e)
                   = (if number_less (ds ! i) threshold then
                        (if db_error db = None
                         then \<lparr>verified = True, userId_opt = Some (userId (users ! i)),
                               distance = Some (ds ! i), message = None\<rparr>
                         else \<lparr>verified = False, userId_opt = None, distance = None,
                               message = Some ''Error during verification''\<rparr>)
                      else \<lparr>verified = False, userId_opt = None, distance = None,
                            message = Some (''No match found (closest: '' @ userId (users ! i)
                              @ '' '' @ toFixed (Number_toString rt) (ds ! i) 2 @ '')'')\<rparr>)
               else closestMatch_loop rt e users (Infinity, None) = Inr (Infinity, None)
                 \<and> fst (verifyFace rt users db e)
                     = \<lparr>verified = False, userId_opt = None, distance = None,
                        message = Some ''No match found (closest: undefined Infinity)''\<rparr>))"
    (is "?formula \<and> (if ?throws then ?failed else \<exists>ds. ?computed ds \<and> ?selected ds)")
proof (intro conjI)
  show ?formula by (simp add: calculateEuclideanDistance_numbers)
next
  show "if ?throws then ?failed else \<exists>ds. ?computed ds \<and> ?selected ds"
  proof (cases ?throws)
    case True
    from loop_throws [OF True] obtain m where
      "closestMatch_loop rt e users (Infinity, None) = Inl m" by blast
    then have ?failed using len ne by (simp add: verifyFace_def)
    then show ?thesis by (subst if_P [OF True])
  next
    case nothrow: False
    then have "\<forall>u\<in>set users. \<forall>m. calculateEuclideanDistance rt e (embedding u) \<noteq> Inl m"
      by blast
    from all_computed [OF this] obtain ds where ds: "?computed ds" ..
    then have l: "length ds = length users" by (metis length_map)
    have loop: "closestMatch_loop rt e users (Infinity, None)
                  = Inr (foldl closer (Infinity, None) (zip ds users))"
      using ds by (rule loop_foldl)
    have main: "?selected ds"
    proof (cases "\<exists>j<length users. number_less (ds ! j) Infinity")
      case True
      with scan_select [OF l] obtain i where i: "i < length users"
        and 1: "number_less (ds ! i) Infinity"
        and 2: "\<forall>j<length users. \<not> number_less (ds ! j) (ds ! i)"
        and 3: "\<forall>j<i. number_less (ds ! j) Infinity \<longrightarrow> number_less (ds ! i) (ds ! j)"
        and 4: "foldl closer (Infinity, None) (zip ds users) = (ds ! i, Some (users ! i))"
        by auto
      have 5: "closestMatch_loop rt e users (Infinity, None) = Inr (ds ! i, Some (users ! i))"
        using loop 4 by simp
      have 6: "fst (verifyFace rt users db e)
                   = (if number_less (ds ! i) threshold then
                        (if db_error db = None
                         then \<lparr>verified = True, userId_opt = Some (userId (users ! i)),
                               distance = Some (ds ! i), message = None\<rparr>
                         else \<lparr>verified = False, userId_opt = None, distance = None,
                               message = Some ''Error during verification''\<rparr>)
                      else \<lparr>verified = False, userId_opt = None, distance = None,
                            message = Some (''No match found (closest: '' @ userId (users ! i)
                              @ '' '' @ toFixed (Number_toString rt) (ds ! i) 2 @ '')'')\<rparr>)"
        using len ne by (cases "db_error db") (simp_all add: verifyFace_def 5 logVerification_def)
      from i 1 2 3 5 6 True show ?thesis by auto
    next
      case False
      with scan_select [OF l]
      have "foldl closer (Infinity, None) (zip ds users) = (Infinity, None)" by auto
      with loop have 5: "closestMatch_loop rt e users (Infinity, None) = Inr (Infinity, None)"
        by simp
      have "fst (verifyFace rt users db e)
                  = \<lparr>verified = False, userId_opt = None, distance = None,
                     message = Some ''No match found (closest: undefined Infinity)''\<rparr>"
        using len ne by (simp add: verifyFace_def 5 toFixed_def)
      with 5 False show ?thesis by auto
    qed
    show ?thesis
      by (subst if_not_P [OF nothrow]) (rule exI [of _ ds], rule conjI [OF ds main])
  qed
qed

theorem verifyFace_nearest_neighbor_witness:
  "length (probe (replicate 128 0)) = 128
   \<and> map (\<lambda>u. calculateEuclideanDistance engine (probe (replicate 128 0)) (embedding u))
        [\<lparr>userId = ''alice'', embedding = stored_array (51 / 64 # replicate 127 0)\<rparr>,
         \<lparr>userId = ''bob'', embedding = stored_array (replicate 128 0)\<rparr>,
         \<lparr>userId = ''carol'', embedding = stored_array (replicate 128 0)\<rparr>]
      = map Inr [Num (51 / 64), Num 0, Num 0]
   \<and> closestMatch_loop engine (probe (replicate 128 0))
        [\<lparr>userId = ''alice'', embedding = stored_array (51 / 64 # replicate 127 0)\<rparr>,
         \<lparr>userId = ''bob'', embedding = stored_array (replicate 128 0)\<rparr>,
         \<lparr>userId = ''carol'', embedding = stored_array (replicate 128 0)\<rparr>] (Infinity, None)
      = Inr (Num 0, Some \<lparr>userId = ''bob'', embedding = stored_array (replicate 128 0)\<rparr>)
   \<and> fst (verifyFace engine
        [\<lparr>userId = ''alice'', embedding = stored_array (51 / 64 # replicate 127 0)\<rparr>,
         \<lparr>userId = ''bob'', embedding = stored_array (replicate 128 0)\<rparr>,
         \<lparr>userId = ''carol'', embedding = stored_array (replicate 128 0)\<rparr>]
        \<lparr>Users = [], VerificationLogs = [], db_error = None\<rparr> (probe (replicate 128 0)))
      = \<lparr>verified = True, userId_opt = Some ''bob'', distance = Some (Num 0), message = None\<rparr>"
proof -
  let ?e = "probe (replicate 128 0)"
  let ?us = "[\<lparr>userId = ''alice'', embedding = stored_array (51 / 64 # replicate 127 0)\<rparr>,
         \<lparr>userId = ''bob'', embedding = stored_array (replicate 128 0)\<rparr>,
         \<lparr>userId = ''carol'', embedding = stored_array (replicate 128 0)\<rparr>]"
  let ?ds = "[Num (51 / 64), Num 0, Num 0]"
  let ?db = "\<lparr>Users = [], VerificationLogs = [], db_error = None\<rparr>"
  have h1: "length ?e = 128" by (simp add: probe_def)
  have h2: "?us \<noteq> []" by simp
  have h3: "map (\<lambda>u. calculateEuclideanDistance engine ?e (embedding u)) ?us = map Inr ?ds"
    by (simp add: distance_far distance_same)
  have nothrow: "\<not> (\<exists>u\<in>set ?us. \<exists>err.
                     calculateEuclideanDistance engine ?e (embedding u) = Inl err)"
    by (simp add: distance_far distance_same)
  have c: "\<exists>j<length ?us. number_less (?ds ! j) Infinity"
    by (intro exI [of _ 0]) simp
  from verifyFace_nearest_neighbor [OF h1 h2, of engine ?db, THEN conjunct2]
  obtain ds where
    ds: "map (\<lambda>u. calculateEuclideanDistance engine ?e (embedding u)) ?us = map Inr ds"
    and sel: "if \<exists>j<length ?us. number_less (ds ! j) Infinity
              then \<exists>i<length ?us.
                number_less (ds ! i) Infinity
              \<and> (\<forall>j<length ?us. \<not> number_less (ds ! j) (ds ! i))
              \<and> (\<forall>j<i. number_less (ds ! j) Infinity \<longrightarrow> number_less (ds ! i) (ds ! j))
              \<and> closestMatch_loop engine ?e ?us (Infinity, None) = Inr (ds ! i, Some (?us ! i))
              \<and> fst (verifyFace engine ?us ?db ?e)
                  = (if number_less (ds ! i) threshold then
                       (if db_error ?db = None
                        then \<lparr>verified = True, userId_opt = Some (userId (?us ! i)),
                              distance = Some (ds ! i), message = None\<rparr>
                        else \<lparr>verified = False, userId_opt = None, distance = None,
                              message = Some ''Error during verification''\<rparr>)
                     else \<lparr>verified = False, userId_opt = None, distance = None,
                           message = Some (''No match found (closest: '' @ userId (?us ! i)
                             @ '' '' @ toFixed (Number_toString engine) (ds ! i) 2 @ '')'')\<rparr>)
              else closestMatch_loop engine ?e ?us (Infinity, None) = Inr (Infinity, None)
                \<and> fst (verifyFace engine ?us ?db ?e)
                    = \<lparr>verified = False, userId_opt = None, distance = None,
                       message = Some ''No match found (closest: undefined Infinity)''\<rparr>"
    unfolding if_not_P [OF nothrow] by blast
  from ds h3 have "map Inr ds = (map Inr ?ds :: (string + number) list)" by simp
  then have dsv: "ds = ?ds" by (auto simp: map_eq_Cons_conv)
  from sel c
  obtain i where i: "i < length ?us"
    and f: "\<forall>j<i. number_less (?ds ! j) Infinity \<longrightarrow> number_less (?ds ! i) (?ds ! j)"
    and m: "\<forall>j<length ?us. \<not> number_less (?ds ! j) (?ds ! i)"
    and s: "closestMatch_loop engine ?e ?us (Infinity, None) = Inr (?ds ! i, Some (?us ! i))"
    and v: "fst (verifyFace engine ?us ?db ?e)
                  = (if number_less (?ds ! i) threshold then
                       (if db_error ?db = None
                        then \<lparr>verified = True, userId_opt = Some (userId (?us ! i)),
                              distance = Some (?ds ! i), message = None\<rparr>
                        else \<lparr>verified = False, userId_opt = None, distance = None,
                              message = Some ''Error during verification''\<rparr>)
                     else \<lparr>verified = False, userId_opt = None, distance = None,
                           message = Some (''No match found (closest: '' @ userId (?us ! i)
                             @ '' '' @ toFixed (Number_toString engine) (?ds ! i) 2 @ '')'')\<rparr>)"
    unfolding dsv by (simp only: if_True) blast
  from i have "i = 0 \<or> i = 1 \<or> i = 2" by auto
  moreover have "i \<noteq> 0"
  proof
    assume i0: "i = 0"
    have "1 < length ?us" by simp
    with m have "\<not> number_less (?ds ! 1) (?ds ! i)" by blast
    with i0 show False by simp
  qed
  moreover have "i \<noteq> 2"
  proof
    assume i2: "i = 2"
    then have "1 < i" by simp
    with f have "number_less (?ds ! 1) Infinity \<longrightarrow> number_less (?ds ! i) (?ds ! 1)" by blast
    with i2 show False by simp
  qed
  ultimately have i1: "i = 1" by blast
  from s v h1 h3 show ?thesis unfolding i1 by (simp add: threshold_value)
qed

text \<open>
  Claim C1 as stated fails in four ways. The distances are computed in floating
  point: \<open>alice\<close> is farther from the probe than \<open>bob\<close>, yet both computed distances
  are \<open>0.5\<close> and \<open>alice\<close>, who comes first, is returned. A stored embedding of another
  length makes the distance computation throw, and the outcome names no user. A
  computed distance that is not below \<^verbatim>\<open>Infinity\<close> selects no user at all. And a
  nearest user who is not below the threshold is not returned but named in the message.
\<close>

theorem verifyFace_nearest_neighbor_counterexample:
  "euclidean (replicate 128 0) (1 / 2 # 0 # replicate 126 0)
     < euclidean (replicate 128 0) (1 / 2 # 1 / 2 ^ 31 # replicate 126 0)
   \<and> fst (verifyFace engine
        [\<lparr>userId = ''alice'', embedding = stored_array (1 / 2 # 1 / 2 ^ 31 # replicate 126 0)\<rparr>,
         \<lparr>userId = ''bob'', embedding = stored_array (1 / 2 # 0 # replicate 126 0)\<rparr>]
        \<lparr>Users = [], VerificationLogs = [], db_error = None\<rparr> (probe (replicate 128 0)))
      = \<lparr>verified = True, userId_opt = Some ''alice'', distance = Some (Num (1 / 2)),
         message = None\<rparr>
   \<and> fst (verifyFace engine
        [\<lparr>userId = ''alice'', embedding = stored_array [0]\<rparr>]
        \<lparr>Users = [], VerificationLogs = [], db_error = None\<rparr> (probe (replicate 128 0)))
      = \<lparr>verified = False, userId_opt = None, distance = None,
         message = Some ''Error during verification''\<rparr>
   \<and> fst (verifyFace engine
        [\<lparr>userId = ''alice'', embedding = stored_array (2 ^ 600 # replicate 127 0)\<rparr>]
        \<lparr>Users = [], VerificationLogs = [], db_error = None\<rparr> (probe (replicate 128 0)))
      = \<lparr>verified = False, userId_opt = None, distance = None,
         message = Some ''No match found (closest: undefined Infinity)''\<rparr>
   \<and> fst (verifyFace engine
        [\<lparr>userId = ''alice'', embedding = stored_array (51 / 64 # replicate 127 0)\<rparr>]
        \<lparr>Users = [], VerificationLogs = [], db_error = None\<rparr> (probe (replicate 128 0)))
      = \<lparr>verified = False, userId_opt = None, distance = None,
         message = Some ''No match found (closest: alice 0.80)''\<rparr>"
proof -
  have l: "length (probe (replicate 128 0)) = 128" by (simp add: probe_def)
  have a: "fst (verifyFace engine
        [\<lparr>userId = ''alice'', embedding = stored_array (1 / 2 # 1 / 2 ^ 31 # replicate 126 0)\<rparr>,
         \<lparr>userId = ''bob'', embedding = stored_array (1 / 2 # 0 # replicate 126 0)\<rparr>]
        \<lparr>Users = [], VerificationLogs = [], db_error = None\<rparr> (probe (replicate 128 0)))
      = \<lparr>verified = True, userId_opt = Some ''alice'', distance = Some (Num (1 / 2)),
         message = None\<rparr>"
    using distance_near_tie distance_half
    by (simp add: verifyFace_def l threshold_value logVerification_def)
  have b: "fst (verifyFace engine
        [\<lparr>userId = ''alice'', embedding = stored_array [0]\<rparr>]
        \<lparr>Users = [], VerificationLogs = [], db_error = None\<rparr> (probe (replicate 128 0)))
      = \<lparr>verified = False, userId_opt = None, distance = None,
         message = Some ''Error during verification''\<rparr>"
    by (simp add: verifyFace_def l distance_mismatch)
  have c: "fst (verifyFace engine
        [\<lparr>userId = ''alice'', embedding = stored_array (2 ^ 600 # replicate 127 0)\<rparr>]
        \<lparr>Users = [], VerificationLogs = [], db_error = None\<rparr> (probe (replicate 128 0)))
      = \<lparr>verified = False, userId_opt = None, distance = None,
         message = Some ''No match found (closest: undefined Infinity)''\<rparr>"
    using distance_overflow by (simp add: verifyFace_def l toFixed_def)
  have d: "fst (verifyFace engine
        [\<lparr>userId = ''alice'', embedding = stored_array (51 / 64 # replicate 127 0)\<rparr>]
        \<lparr>Users = [], VerificationLogs = [], db_error = None\<rparr> (probe (replicate 128 0)))
      = \<lparr>verified = False, userId_opt = None, distance = None,
         message = Some ''No match found (closest: alice 0.80)''\<rparr>"
    by (simp add: verifyFace_def l distance_far threshold_value toFixed_51_64)
  from euclidean_tie a b c d show ?thesis by blast
qed

text \<open>
  Claim C2, as amended. For a probe of length 128 and a non-empty population the
  outcome is decided by how the scan ends. If a distance computation throws, the
  outcome is unverified with the message \<^verbatim>\<open>Error during verification\<close>. If the scan
  selects no user (no computed distance is below \<^verbatim>\<open>Infinity\<close>), the outcome is
  unverified and the message names no candidate. Otherwise the scan ends with a user
  \<open>u\<close> at the computed distance \<open>d\<close>, than which no computed distance is smaller, and
  the outcome is verified, with the id of \<open>u\<close> and with \<open>d\<close>, exactly when \<open>d\<close> is below
  the threshold and the verification event could be written; it is unverified with
  the message \<^verbatim>\<open>Error during verification\<close> when \<open>d\<close> is below the threshold and the
  write fails, and unverified with a message that names \<open>u\<close> and \<open>d\<close> to two decimals
  when \<open>d\<close> is not below the threshold.
\<close>

theorem verifyFace_decision_rule:
  assumes len: "length e = 128" and ne: "users \<noteq> []"
  shows "case closestMatch_loop rt e users (Infinity, None) of
           Inl err \<Rightarrow>
             (\<exists>u\<in>set users. calculateEuclideanDistance rt e (embedding u) = Inl err)
             \<and> fst (verifyFace rt users db e)
                 = \<lparr>verified = False, userId_opt = None, distance = None,
                    message = Some ''Error during verification''\<rparr>
         | Inr (d, None) \<Rightarrow>
             d = Infinity
             \<and> (\<forall>v\<in>set users. \<exists>x. calculateEuclideanDistance rt e (embedding v) = Inr x
                                   \<and> \<not> number_less x Infinity)
             \<and> fst (verifyFace rt users db e)
                 = \<lparr>verified = False, userId_opt = None, distance = None,
                    message = Some ''No match found (closest: undefined Infinity)''\<rparr>
         | Inr (d, Some u) \<Rightarrow>
             u \<in> set users \<and> calculateEuclideanDistance rt e (embedding u) = Inr d
             \<and> (\<forall>v\<in>set users. \<exists>x. calculateEuclideanDistance rt e (embedding v) = Inr x
                                   \<and> \<not> number_less x d)
             \<and> fst (verifyFace rt users db e)
                 = (if number_less d threshold then
                      (if db_error db = None
                       then \<lparr>verified = True, userId_opt = Some (userId u), distance = Some d,
                             message = None\<rparr>
                       else \<lparr>verified = False, userId_opt = None, distance = None,
                             message = Some ''Error during verification''\<rparr>)
                    else \<lparr>verified = False, userId_opt = None, distance = None,
                          message = Some (''No match found (closest: '' @ userId u @ '' ''
                            @ toFixed (Number_toString rt) d 2 @ '')'')\<rparr>)"
proof (cases "closestMatch_loop rt e users (Infinity, None)")
  case (Inl err)
  from loop_Inl [OF Inl]
  have "\<exists>u\<in>set users. calculateEuclideanDistance rt e (embedding u) = Inl err" .
  moreover have "fst (verifyFace rt users db e)
                 = \<lparr>verified = False, userId_opt = None, distance = None,
                    message = Some ''Error during verification''\<rparr>"
    using len ne by (simp add: verifyFace_def Inl)
  ultimately show ?thesis by (simp add: Inl)
next
  case (Inr r)
  from loop_Inr [OF Inr] obtain ds where
    ds: "map (\<lambda>u. calculateEuclideanDistance rt e (embedding u)) users = map Inr ds" ..
  then have l: "length ds = length users" by (metis length_map)
  have nth: "\<And>j. j < length users \<Longrightarrow>
               calculateEuclideanDistance rt e (embedding (users ! j)) = Inr (ds ! j)"
  proof -
    fix j assume j: "j < length users"
    then have "map (\<lambda>u. calculateEuclideanDistance rt e (embedding u)) users ! j
                 = calculateEuclideanDistance rt e (embedding (users ! j))" by simp
    moreover have "map Inr ds ! j = Inr (ds ! j)" using j l by simp
    ultimately show "calculateEuclideanDistance rt e (embedding (users ! j)) = Inr (ds ! j)"
      unfolding ds by (rule trans [OF sym])
  qed
  have loop: "closestMatch_loop rt e users (Infinity, None)
                = Inr (foldl closer (Infinity, None) (zip ds users))"
    using ds by (rule loop_foldl)
  show ?thesis
  proof (cases "\<exists>j<length users. number_less (ds ! j) Infinity")
    case True
    with scan_select [OF l] obtain i where i: "i < length users"
      and 2: "\<forall>j<length users. \<not> number_less (ds ! j) (ds ! i)"
      and 4: "foldl closer (Infinity, None) (zip ds users) = (ds ! i, Some (users ! i))"
      by auto
    have 5: "closestMatch_loop rt e users (Infinity, None) = Inr (ds ! i, Some (users ! i))"
      using loop 4 by simp
    have a: "users ! i \<in> set users" using i by simp
    have b: "calculateEuclideanDistance rt e (embedding (users ! i)) = Inr (ds ! i)"
      using nth [OF i] .
    have c: "\<forall>v\<in>set users. \<exists>x. calculateEuclideanDistance rt e (embedding v) = Inr x
                                   \<and> \<not> number_less x (ds ! i)"
    proof
      fix v assume "v \<in> set users"
      then obtain j where j: "j < length users" and v: "v = users ! j"
        by (auto simp: in_set_conv_nth)
      from nth [OF j] 2 j v
      show "\<exists>x. calculateEuclideanDistance rt e (embedding v) = Inr x
                  \<and> \<not> number_less x (ds ! i)" by auto
    qed
    have d: "fst (verifyFace rt users db e)
                  = (if number_less (ds ! i) threshold then
                       (if db_error db = None
                        then \<lparr>verified = True, userId_opt = Some (userId (users ! i)),
                              distance = Some (ds ! i), message = None\<rparr>
                        else \<lparr>verified = False, userId_opt = None, distance = None,
                              message = Some ''Error during verification''\<rparr>)
                     else \<lparr>verified = False, userId_opt = None, distance = None,
                           message = Some (''No match found (closest: '' @ userId (users ! i)
                             @ '' '' @ toFixed (Number_toString rt) (ds ! i) 2 @ '')'')\<rparr>)"
      using len ne by (cases "db_error db") (simp_all add: verifyFace_def 5 logVerification_def)
    from a b c d show ?thesis by (simp add: 5)
  next
    case False
    with scan_select [OF l] have "foldl closer (Infinity, None) (zip ds users) = (Infinity, None)"
      by auto
    with loop have 5: "closestMatch_loop rt e users (Infinity, None) = Inr (Infinity, None)"
      by simp
    have c: "\<forall>v\<in>set users. \<exists>x. calculateEuclideanDistance rt e (embedding v) = Inr x
                                   \<and> \<not> number_less x Infinity"
    proof
      fix v assume "v \<in> set users"
      then obtain j where j: "j < length users" and v: "v = users ! j"
        by (auto simp: in_set_conv_nth)
      from nth [OF j] False j v
      show "\<exists>x. calculateEuclideanDistance rt e (embedding v) = Inr x
                  \<and> \<not> number_less x Infinity" by auto
    qed
    have "fst (verifyFace rt users db e)
                = \<lparr>verified = False, userId_opt = None, distance = None,
                   message = Some ''No match found (closest: undefined Infinity)''\<rparr>"
      using len ne by (simp add: verifyFace_def 5 toFixed_def)
    with c show ?thesis by (simp add: 5)
  qed
qed

theorem verifyFace_decision_rule_witness:
  "length (probe (replicate 128 0)) = 128
   \<and> length (probe (51 / 64 # replicate 127 0)) = 128
   \<and> closestMatch_loop engine (probe (replicate 128 0))
        [\<lparr>userId = ''alice'', embedding = stored_array (replicate 128 0)\<rparr>] (Infinity, None)
      = Inr (Num 0, Some \<lparr>userId = ''alice'', embedding = stored_array (replicate 128 0)\<rparr>)
   \<and> fst (verifyFace engine [\<lparr>userId = ''alice'', embedding = stored_array (replicate 128 0)\<rparr>]
        \<lparr>Users = [], VerificationLogs = [], db_error = None\<rparr> (probe (replicate 128 0)))
      = \<lparr>verified = True, userId_opt = Some ''alice'', distance = Some (Num 0), message = None\<rparr>
   \<and> closestMatch_loop engine (probe (51 / 64 # replicate 127 0))
        [\<lparr>userId = ''alice'', embedding = stored_array (replicate 128 0)\<rparr>] (Infinity, None)
      = Inr (Num (51 / 64),
             Some \<lparr>userId = ''alice'', embedding = stored_array (replicate 128 0)\<rparr>)
   \<and> fst (verifyFace engine [\<lparr>userId = ''alice'', embedding = stored_array (replicate 128 0)\<rparr>]
        \<lparr>Users = [], VerificationLogs = [], db_error = None\<rparr>
        (probe (51 / 64 # replicate 127 0)))
      = \<lparr>verified = False, userId_opt = None, distance = None,
         message = Some ''No match found (closest: alice 0.80)''\<rparr>"
proof -
  let ?us = "[\<lparr>userId = ''alice'', embedding = stored_array (replicate 128 0)\<rparr>]"
  let ?db = "\<lparr>Users = [], VerificationLogs = [], db_error = None\<rparr>"
  have h1: "length (probe (replicate 128 0)) = 128" by (simp add: probe_def)
  have h2: "length (probe (51 / 64 # replicate 127 0)) = 128" by (simp add: probe_def)
  have ne: "?us \<noteq> []" by simp
  have s1: "closestMatch_loop engine (probe (replicate 128 0)) ?us (Infinity, None)
      = Inr (Num 0, Some \<lparr>userId = ''alice'', embedding = stored_array (replicate 128 0)\<rparr>)"
    by (simp add: distance_same)
  have s2: "closestMatch_loop engine (probe (51 / 64 # replicate 127 0)) ?us (Infinity, None)
      = Inr (Num (51 / 64),
             Some \<lparr>userId = ''alice'', embedding = stored_array (replicate 128 0)\<rparr>)"
    by (simp add: distance_51_64)
  have v1: "fst (verifyFace engine ?us ?db (probe (replicate 128 0)))
      = \<lparr>verified = True, userId_opt = Some ''alice'', distance = Some (Num 0), message = None\<rparr>"
    using verifyFace_decision_rule [OF h1 ne, of engine ?db]
    unfolding s1 by (simp add: threshold_value)
  have v2: "fst (verifyFace engine ?us ?db (probe (51 / 64 # replicate 127 0)))
      = \<lparr>verified = False, userId_opt = None, distance = None,
         message = Some ''No match found (closest: alice 0.80)''\<rparr>"
    using verifyFace_decision_rule [OF h2 ne, of engine ?db]
    unfolding s2 by (simp add: threshold_value toFixed_51_64)
  from h1 h2 s1 v1 s2 v2 show ?thesis by blast
qed

text \<open>
  Claim C2 as stated fails in four ways. The probe equals the only enrolled vector
  (distance \<open>0\<close>) and the verification event cannot be written: the outcome is
  unverified. A stored embedding of another length makes the distance computation
  throw: the outcome is unverified with a message that names no candidate and no
  distance. A computed distance of \<^verbatim>\<open>Infinity\<close> leaves the scan without a candidate
  to name. And the comparison is one of floating-point numbers: at the distance that
  is the number \<^verbatim>\<open>0.6\<close> itself, which is below six tenths, the outcome is unverified.
\<close>

theorem verifyFace_decision_rule_counterexample:
  "calculateEuclideanDistance engine (probe (replicate 128 0)) (stored_array (replicate 128 0))
     = Inr (Num 0)
   \<and> number_less (Num 0) threshold
   \<and> fst (verifyFace engine [\<lparr>userId = ''alice'', embedding = stored_array (replicate 128 0)\<rparr>]
            \<lparr>Users = [], VerificationLogs = [], db_error = Some ''database is locked''\<rparr>
            (probe (replicate 128 0)))
       = \<lparr>verified = False, userId_opt = None, distance = None,
          message = Some ''Error during verification''\<rparr>
   \<and> fst (verifyFace engine [\<lparr>userId = ''alice'', embedding = stored_array [0, 0, 0]\<rparr>]
            \<lparr>Users = [], VerificationLogs = [], db_error = None\<rparr> (probe (replicate 128 0)))
       = \<lparr>verified = False, userId_opt = None, distance = None,
          message = Some ''Error during verification''\<rparr>
   \<and> fst (verifyFace engine
            [\<lparr>userId = ''alice'', embedding = stored_array (2 ^ 600 # replicate 127 0)\<rparr>]
            \<lparr>Users = [], VerificationLogs = [], db_error = None\<rparr> (probe (replicate 128 0)))
       = \<lparr>verified = False, userId_opt = None, distance = None,
          message = Some ''No match found (closest: undefined Infinity)''\<rparr>
   \<and> euclidean (5404319552844595 / 2 ^ 53 # replicate 127 0) (replicate 128 0) < 6 / 10
   \<and> fst (verifyFace engine [\<lparr>userId = ''alice'', embedding = stored_array (replicate 128 0)\<rparr>]
            \<lparr>Users = [], VerificationLogs = [], db_error = None\<rparr>
            (probe (5404319552844595 / 2 ^ 53 # replicate 127 0)))
       = \<lparr>verified = False, userId_opt = None, distance = None,
          message = Some ''No match found (closest: alice 0.60)''\<rparr>"
proof -
  have l: "length (probe (replicate 128 0)) = 128" by (simp add: probe_def)
  have l': "length (probe (5404319552844595 / 2 ^ 53 # replicate 127 0)) = 128"
    by (simp add: probe_def)
  have d: "fst (verifyFace engine [\<lparr>userId = ''alice'', embedding = stored_array (replicate 128 0)\<rparr>]
            \<lparr>Users = [], VerificationLogs = [], db_error = None\<rparr>
            (probe (5404319552844595 / 2 ^ 53 # replicate 127 0)))
       = \<lparr>verified = False, userId_opt = None, distance = None,
          message = Some ''No match found (closest: alice 0.60)''\<rparr>"
  proof -
    have nl: "\<not> number_less (Num (5404319552844595 / 2 ^ 53)) threshold"
      by (simp add: threshold_value)
    show ?thesis
      using distance_threshold nl toFixed_threshold [of "Number_toString engine"] l'
      by (simp add: verifyFace_def)
  qed
  have t: "number_less (Num 0) threshold" by (simp add: threshold_value)
  have a: "fst (verifyFace engine [\<lparr>userId = ''alice'', embedding = stored_array (replicate 128 0)\<rparr>]
            \<lparr>Users = [], VerificationLogs = [], db_error = Some ''database is locked''\<rparr>
            (probe (replicate 128 0)))
       = \<lparr>verified = False, userId_opt = None, distance = None,
          message = Some ''Error during verification''\<rparr>"
    by (simp add: verifyFace_def l distance_same threshold_value logVerification_def)
  have b: "fst (verifyFace engine [\<lparr>userId = ''alice'', embedding = stored_array [0, 0, 0]\<rparr>]
            \<lparr>Users = [], VerificationLogs = [], db_error = None\<rparr> (probe (replicate 128 0)))
       = \<lparr>verified = False, userId_opt = None, distance = None,
          message = Some ''Error during verification''\<rparr>"
    by (simp add: verifyFace_def l calculateEuclideanDistance_def stored_array_def probe_def)
  have c: "fst (verifyFace engine
            [\<lparr>userId = ''alice'', embedding = stored_array (2 ^ 600 # replicate 127 0)\<rparr>]
            \<lparr>Users = [], VerificationLogs = [], db_error = None\<rparr> (probe (replicate 128 0)))
       = \<lparr>verified = False, userId_opt = None, distance = None,
          message = Some ''No match found (closest: undefined Infinity)''\<rparr>"
    using distance_overflow by (simp add: verifyFace_def l toFixed_def)
  from distance_same t a b c euclidean_threshold d show ?thesis by blast
qed

text \<open>
  Claim C4, as amended. The matcher touches nothing but the verification-event sink,
  and that in one way: it appends the event of the matched user exactly when it returns
  a verified outcome, and returns the database as it was on every other path.
\<close>

theorem verifyFace_sink_effect:
  "snd (verifyFace ts users db e)
     = (case userId_opt (fst (verifyFace ts users db e)) of
          None \<Rightarrow> db
        | Some uid \<Rightarrow> db\<lparr>VerificationLogs := VerificationLogs db @ [uid]\<rparr>)
   \<and> verified (fst (verifyFace ts users db e))
       = (userId_opt (fst (verifyFace ts users db e)) \<noteq> None)"
  by (simp add: verifyFace_def logVerification_def split: option.splits sum.splits prod.splits)

text \<open>
  Claim C4 as stated fails: matching the only enrolled vector against itself leaves a
  new row for that user in \<^verbatim>\<open>VerificationLogs\<close>, written by the matcher itself.
\<close>

theorem verifyFace_writes_sink_counterexample:
  "VerificationLogs (snd (verifyFace engine
      [\<lparr>userId = ''alice'', embedding = stored_array (replicate 128 0)\<rparr>]
      \<lparr>Users = [], VerificationLogs = [], db_error = None\<rparr> (probe (replicate 128 0))))
    = [''alice'']"
proof -
  have l: "length (probe (replicate 128 0)) = 128" by (simp add: probe_def)
  show ?thesis
    by (simp add: verifyFace_def l distance_same threshold_value logVerification_def)
qed

text \<open>
  Claim C6. A probe whose length is not 128 is answered with an unverified outcome whose
  message is the length-mismatch reason (\<^verbatim>\<open>Invalid embedding length: \<close> and the
  length), whatever the population and the database are, which is returned unchanged;
  no exception leaves the function.
\<close>

theorem verifyFace_rejects_wrong_length:
  "length e \<noteq> 128 \<Longrightarrow>
     verifyFace ts users db e
       = (\<lparr>verified = False, userId_opt = None, distance = None,
           message = Some (''Invalid embedding length: '' @ show_nat (length e))\<rparr>, db)"
  by (simp add: verifyFace_def)

theorem verifyFace_rejects_wrong_length_witness:
  "length (probe [1 / 2, 1 / 4, 0, 0, 1]) \<noteq> 128
   \<and> verifyFace engine [\<lparr>userId = ''alice'', embedding = stored_array (replicate 128 0)\<rparr>]
        \<lparr>Users = [], VerificationLogs = [], db_error = None\<rparr> (probe [1 / 2, 1 / 4, 0, 0, 1])
      = (\<lparr>verified = False, userId_opt = None, distance = None,
          message = Some ''Invalid embedding length: 5''\<rparr>,
         \<lparr>Users = [], VerificationLogs = [], db_error = None\<rparr>)
   \<and> verifyFace engine [] \<lparr>Users = [], VerificationLogs = [], db_error = None\<rparr> []
      = (\<lparr>verified = False, userId_opt = None, distance = None,
          message = Some ''Invalid embedding length: 0''\<rparr>,
         \<lparr>Users = [], VerificationLogs = [], db_error = None\<rparr>)"
proof -
  have h: "length (probe [1 / 2, 1 / 4, 0, 0, 1]) \<noteq> 128" by (simp add: probe_def)
  have h0: "length ([] :: number list) \<noteq> 128" by simp
  have s5: "show_nat (length (probe [1 / 2, 1 / 4, 0, 0, 1])) = ''5''"
    by (simp add: show_nat.simps digit_char_def probe_def)
  have s0: "show_nat (length ([] :: number list)) = ''0''"
    by (simp add: show_nat.simps digit_char_def)
  show ?thesis
    using verifyFace_rejects_wrong_length [OF h, of engine
            "[\<lparr>userId = ''alice'', embedding = stored_array (replicate 128 0)\<rparr>]"
            "\<lparr>Users = [], VerificationLogs = [], db_error = None\<rparr>"]
          verifyFace_rejects_wrong_length [OF h0, of engine "[]"
            "\<lparr>Users = [], VerificationLogs = [], db_error = None\<rparr>"]
    unfolding s5 s0 using h by simp
qed

section \<open>The gate link: gating of commands and the authentication invariant\<close>

lemma alert_fields [simp]:
  "isConnected (alert t m st) = isConnected st"
  "isAuthenticated (alert t m st) = isAuthenticated st"
  "link_open (alert t m st) = link_open st"
  "listening (alert t m st) = listening st"
  "device (alert t m st) = device st"
  "sent (alert t m st) = sent st"
  "responses (alert t m st) = responses st"
  "hasPermissions (alert t m st) = hasPermissions st"
  "alerts (alert t m st) = alerts st @ [(t, m)]"
  by (simp_all add: alert_def)

lemma addResponse_fields [simp]:
  "isConnected (addResponse m st) = isConnected st"
  "isAuthenticated (addResponse m st) = isAuthenticated st"
  "link_open (addResponse m st) = link_open st"
  "listening (addResponse m st) = listening st"
  "device (addResponse m st) = device st"
  "sent (addResponse m st) = sent st"
  "alerts (addResponse m st) = alerts st"
  "hasPermissions (addResponse m st) = hasPermissions st"
  "responses (addResponse m st) = responses st @ [m]"
  by (simp_all add: addResponse_def)

lemma checkPermissions_flags:
  "checkPermissions a st = (st', b) \<Longrightarrow>
     isConnected st' = isConnected st \<and> isAuthenticated st' = isAuthenticated st
     \<and> link_open st' = link_open st \<and> listening st' = listening st \<and> device st' = device st"
  by (auto simp: checkPermissions_def split: sum.splits)

lemma requestAndroidPermissions_flags:
  "requestAndroidPermissions a st = (st', b) \<Longrightarrow>
     isConnected st' = isConnected st \<and> isAuthenticated st' = isAuthenticated st
     \<and> link_open st' = link_open st \<and> listening st' = listening st \<and> device st' = device st"
  by (auto simp: requestAndroidPermissions_def Let_def split: sum.splits if_splits)

lemma connectToESP32_flags:
  "isAuthenticated (fst (connectToESP32 env st)) = isAuthenticated st
   \<and> (isConnected st \<longrightarrow> isConnected (fst (connectToESP32 env st)))
   \<and> (link_open (fst (connectToESP32 env st)) \<longrightarrow>
        link_open st \<or> isConnected (fst (connectToESP32 env st)))"
proof -
  obtain st1 c where c: "checkPermissions (permission_checks env) st = (st1, c)"
    by (cases "checkPermissions (permission_checks env) st")
  obtain st2 g where g: "(if \<not> c then requestAndroidPermissions (permission_request env) st1
                  else (st1, c)) = (st2, g)"
    by (cases "(if \<not> c then requestAndroidPermissions (permission_request env) st1
                  else (st1, c))")
  have f1: "isConnected st1 = isConnected st \<and> isAuthenticated st1 = isAuthenticated st
     \<and> link_open st1 = link_open st"
    using checkPermissions_flags [OF c] by simp
  have f2: "isConnected st2 = isConnected st \<and> isAuthenticated st2 = isAuthenticated st
     \<and> link_open st2 = link_open st"
  proof (cases c)
    case True
    with g f1 show ?thesis by simp
  next
    case False
    with g have "requestAndroidPermissions (permission_request env) st1 = (st2, g)" by simp
    from requestAndroidPermissions_flags [OF this] f1 show ?thesis by simp
  qed
  show ?thesis
    using f2 by (simp add: connectToESP32_def c g Let_def split: option.splits sum.splits)
qed

lemma handleRetryPermissions_flags:
  "isAuthenticated (handleRetryPermissions a env st) = isAuthenticated st
   \<and> (isConnected st \<longrightarrow> isConnected (handleRetryPermissions a env st))
   \<and> (link_open (handleRetryPermissions a env st) \<longrightarrow>
        link_open st \<or> isConnected (handleRetryPermissions a env st))"
proof -
  obtain st1 g where r: "requestAndroidPermissions a st = (st1, g)"
    by (cases "requestAndroidPermissions a st")
  from requestAndroidPermissions_flags [OF r]
  have f: "isConnected st1 = isConnected st" "isAuthenticated st1 = isAuthenticated st"
    "link_open st1 = link_open st" by simp_all
  show ?thesis
  proof (cases g)
    case True
    then show ?thesis
      using connectToESP32_flags [of env "st1\<lparr>hasPermissions := True\<rparr>"] f
      by (simp add: handleRetryPermissions_def r)
  next
    case False
    then show ?thesis using f by (simp add: handleRetryPermissions_def r)
  qed
qed

lemma disconnectFromESP32_flags:
  "(snd (disconnectFromESP32 e st) \<longrightarrow>
      \<not> isConnected (fst (disconnectFromESP32 e st))
    \<and> \<not> isAuthenticated (fst (disconnectFromESP32 e st))
    \<and> \<not> link_open (fst (disconnectFromESP32 e st)))
   \<and> (\<not> snd (disconnectFromESP32 e st) \<longrightarrow>
      isConnected (fst (disconnectFromESP32 e st)) = isConnected st
    \<and> isAuthenticated (fst (disconnectFromESP32 e st)) = isAuthenticated st
    \<and> link_open (fst (disconnectFromESP32 e st)) = link_open st)"
  by (simp add: disconnectFromESP32_def split: option.splits)

lemma sendCommand_flags:
  "isConnected (sendCommand e st c) = isConnected st
   \<and> isAuthenticated (sendCommand e st c) = isAuthenticated st
   \<and> link_open (sendCommand e st c) = link_open st"
  by (simp add: sendCommand_def split: option.splits)

lemma onDataReceived_flags:
  "isConnected (onDataReceived d st) = isConnected st
   \<and> link_open (onDataReceived d st) = link_open st
   \<and> isAuthenticated (onDataReceived d st)
       = (if trim d = ''AUTH_SUCCESS'' then True
          else if trim d = ''AUTH_FAILED'' then False else isAuthenticated st)"
  by (simp add: onDataReceived_def Let_def)

lemma link_inv_step: "link_inv st \<Longrightarrow> link_inv (gate_step ev st)"
proof (cases ev)
  case (Connect env)
  assume "link_inv st"
  then show ?thesis
    using connectToESP32_flags [of env st] Connect by (auto simp: link_inv_def)
next
  case (RetryPermissions a env)
  assume "link_inv st"
  then show ?thesis
    using handleRetryPermissions_flags [of a env st] RetryPermissions by (auto simp: link_inv_def)
next
  case (Disconnect e)
  assume "link_inv st"
  then show ?thesis
    using disconnectFromESP32_flags [of e st] Disconnect by (auto simp: link_inv_def)
next
  case (Unmount e)
  assume "link_inv st"
  then show ?thesis using Unmount by (simp add: initial_link_def)
next
  case (DataReceived d)
  assume "link_inv st"
  then show ?thesis
    using onDataReceived_flags [of d st] DataReceived by (auto simp: link_inv_def)
next
  case LinkLost
  assume "link_inv st"
  then show ?thesis using LinkLost by (auto simp: link_inv_def)
next
  case (Send e c)
  assume "link_inv st"
  then show ?thesis
    using sendCommand_flags [of e st c] Send by (auto simp: link_inv_def)
qed

lemma reachable_link_inv: "reachable st \<Longrightarrow> link_inv st"
proof (induction rule: reachable.induct)
  case reachable_initial
  show ?case by (simp add: link_inv_def initial_link_def)
next
  case (reachable_step st ev)
  then show ?case by (simp add: link_inv_step)
qed

lemma reachable_run_events: "reachable st \<Longrightarrow> reachable (run_events evs st)"
  by (induction evs arbitrary: st) (simp_all add: reachable_step)

lemma authenticated_only_by_AUTH_SUCCESS:
  assumes "\<not> isAuthenticated st" and "isAuthenticated (gate_step ev st)"
  shows "\<exists>d. ev = DataReceived d \<and> trim d = ''AUTH_SUCCESS'' \<and> link_open st \<and> listening st"
proof (cases ev)
  case (Connect env)
  then show ?thesis using assms connectToESP32_flags [of env st] by simp
next
  case (RetryPermissions a env)
  then show ?thesis using assms handleRetryPermissions_flags [of a env st] by simp
next
  case (Disconnect e)
  then show ?thesis using assms disconnectFromESP32_flags [of e st] by auto
next
  case (Unmount e)
  then show ?thesis using assms by (simp add: initial_link_def)
next
  case (DataReceived d)
  then show ?thesis using assms onDataReceived_flags [of d st] by (auto split: if_splits)
next
  case LinkLost
  then show ?thesis using assms by simp
next
  case (Send e c)
  then show ?thesis using assms sendCommand_flags [of e st c] by simp
qed

lemma trim_AUTH_SUCCESS: "trim ''AUTH_SUCCESS'' = ''AUTH_SUCCESS''"
  by (simp add: trim_def is_space_def)

lemma trim_AUTH_FAILED: "trim ''AUTH_FAILED'' = ''AUTH_FAILED''"
  by (simp add: trim_def is_space_def)

lemma connect_ok:
  "fst (connectToESP32
      \<lparr>bluetooth_error = None, permission_checks = Inr [True, True, True],
       permission_request = Inr [], bondedDevices = Inr [''HC-05'', ''ESP32_Gate''],
       connect_outcome = Inr True, auth_write_error = None\<rparr> initial_link)
   = \<lparr>isConnected = True, isAuthenticated = False, device = Some ''ESP32_Gate'',
      responses = [''Connected to ESP32_Gate'', ''Sent: AUTHENTICATE''],
      hasPermissions = True, alerts = [],
      sent = [''AUTHENTICATE MySecurePass123'' @ [CHR 0x0A]],
      link_open = True, listening = True\<rparr>"
  by (simp add: connectToESP32_def checkPermissions_def initial_link_def ESP32_DEVICE_NAME_def
      PASSWORD_def addResponse_def)

lemma authenticated_link:
  "run_events
      [Connect \<lparr>bluetooth_error = None, permission_checks = Inr [True, True, True],
         permission_request = Inr [], bondedDevices = Inr [''HC-05'', ''ESP32_Gate''],
         connect_outcome = Inr True, auth_write_error = None\<rparr>,
       DataReceived ''AUTH_SUCCESS''] initial_link
   = \<lparr>isConnected = True, isAuthenticated = True, device = Some ''ESP32_Gate'',
      responses = [''Connected to ESP32_Gate'', ''Sent: AUTHENTICATE'',
                   ''Received: AUTH_SUCCESS'', ''Authentication successful''],
      hasPermissions = True, alerts = [],
      sent = [''AUTHENTICATE MySecurePass123'' @ [CHR 0x0A]],
      link_open = True, listening = True\<rparr>"
  by (simp add: connect_ok onDataReceived_def trim_AUTH_SUCCESS addResponse_def)

text \<open>
  Claim C10, as amended. In every reachable state of the gate link, authenticated
  implies connected. The flag \<open>isAuthenticated\<close> turns true in one way only, by a line
  \<^verbatim>\<open>AUTH_SUCCESS\<close> that arrives over an open connection of a connected link. An
  explicit disconnect of a connected link whose \<^verbatim>\<open>device.disconnect()\<close> returns
  resets both flags; one whose \<^verbatim>\<open>device.disconnect()\<close> throws is caught and leaves
  both flags as they were.
\<close>

theorem authenticated_implies_connected:
  "(reachable st \<longrightarrow> (isAuthenticated st \<longrightarrow> isConnected st))
   \<and> (reachable st \<and> \<not> isAuthenticated st \<and> isAuthenticated (gate_step ev st) \<longrightarrow>
        (\<exists>d. ev = DataReceived d \<and> trim d = ''AUTH_SUCCESS'' \<and> link_open st \<and> isConnected st))
   \<and> (device st \<noteq> None \<and> isConnected st \<longrightarrow>
        \<not> isConnected (gate_step (Disconnect None) st)
      \<and> \<not> isAuthenticated (gate_step (Disconnect None) st))
   \<and> isConnected (gate_step (Disconnect (Some err)) st) = isConnected st
   \<and> isAuthenticated (gate_step (Disconnect (Some err)) st) = isAuthenticated st"
proof -
  have a: "reachable st \<longrightarrow> (isAuthenticated st \<longrightarrow> isConnected st)"
    using reachable_link_inv [of st] by (simp add: link_inv_def)
  have b: "reachable st \<and> \<not> isAuthenticated st \<and> isAuthenticated (gate_step ev st) \<longrightarrow>
        (\<exists>d. ev = DataReceived d \<and> trim d = ''AUTH_SUCCESS'' \<and> link_open st \<and> isConnected st)"
  proof
    assume h: "reachable st \<and> \<not> isAuthenticated st \<and> isAuthenticated (gate_step ev st)"
    then obtain d where d: "ev = DataReceived d" "trim d = ''AUTH_SUCCESS''" "link_open st"
      using authenticated_only_by_AUTH_SUCCESS [of st ev] by blast
    from h have "link_inv st" by (simp add: reachable_link_inv)
    with d(3) have "isConnected st" by (simp add: link_inv_def)
    with d show "\<exists>d. ev = DataReceived d \<and> trim d = ''AUTH_SUCCESS'' \<and> link_open st \<and> isConnected st"
      by blast
  qed
  have c: "device st \<noteq> None \<and> isConnected st \<longrightarrow>
        \<not> isConnected (gate_step (Disconnect None) st)
      \<and> \<not> isAuthenticated (gate_step (Disconnect None) st)"
    by (simp add: disconnectFromESP32_def)
  have d: "isConnected (gate_step (Disconnect (Some err)) st) = isConnected st
         \<and> isAuthenticated (gate_step (Disconnect (Some err)) st) = isAuthenticated st"
    by (simp add: disconnectFromESP32_def)
  from a b c d show ?thesis by blast
qed

theorem authenticated_implies_connected_witness:
  "reachable (run_events
      [Connect \<lparr>bluetooth_error = None, permission_checks = Inr [True, True, True],
         permission_request = Inr [], bondedDevices = Inr [''HC-05'', ''ESP32_Gate''],
         connect_outcome = Inr True, auth_write_error = None\<rparr>,
       DataReceived ''AUTH_SUCCESS''] initial_link)
   \<and> isAuthenticated (run_events
      [Connect \<lparr>bluetooth_error = None, permission_checks = Inr [True, True, True],
         permission_request = Inr [], bondedDevices = Inr [''HC-05'', ''ESP32_Gate''],
         connect_outcome = Inr True, auth_write_error = None\<rparr>,
       DataReceived ''AUTH_SUCCESS''] initial_link)
   \<and> isConnected (run_events
      [Connect \<lparr>bluetooth_error = None, permission_checks = Inr [True, True, True],
         permission_request = Inr [], bondedDevices = Inr [''HC-05'', ''ESP32_Gate''],
         connect_outcome = Inr True, auth_write_error = None\<rparr>,
       DataReceived ''AUTH_SUCCESS''] initial_link)
   \<and> \<not> isConnected (run_events
      [Connect \<lparr>bluetooth_error = None, permission_checks = Inr [True, True, True],
         permission_request = Inr [], bondedDevices = Inr [''HC-05'', ''ESP32_Gate''],
         connect_outcome = Inr True, auth_write_error = None\<rparr>,
       DataReceived ''AUTH_SUCCESS'', Disconnect None] initial_link)
   \<and> \<not> isAuthenticated (run_events
      [Connect \<lparr>bluetooth_error = None, permission_checks = Inr [True, True, True],
         permission_request = Inr [], bondedDevices = Inr [''HC-05'', ''ESP32_Gate''],
         connect_outcome = Inr True, auth_write_error = None\<rparr>,
       DataReceived ''AUTH_SUCCESS'', Disconnect None] initial_link)"
proof -
  let ?env = "\<lparr>bluetooth_error = None, permission_checks = Inr [True, True, True],
         permission_request = Inr [], bondedDevices = Inr [''HC-05'', ''ESP32_Gate''],
         connect_outcome = Inr True, auth_write_error = None\<rparr>"
  let ?s = "run_events [Connect ?env, DataReceived ''AUTH_SUCCESS''] initial_link"
  have r: "reachable ?s"
    by (rule reachable_run_events) (rule reachable_initial)
  have au: "isAuthenticated ?s" unfolding authenticated_link by simp
  have dv: "device ?s \<noteq> None" unfolding authenticated_link by simp
  from authenticated_implies_connected [of ?s] r au have co: "isConnected ?s" by blast
  have run: "run_events [Connect ?env, DataReceived ''AUTH_SUCCESS'', Disconnect None]
               initial_link = gate_step (Disconnect None) ?s"
    by simp
  from authenticated_implies_connected [of ?s] dv co
  have "\<not> isConnected (gate_step (Disconnect None) ?s)
      \<and> \<not> isAuthenticated (gate_step (Disconnect None) ?s)" by blast
  then have "\<not> isConnected (run_events
        [Connect ?env, DataReceived ''AUTH_SUCCESS'', Disconnect None] initial_link)
      \<and> \<not> isAuthenticated (run_events
        [Connect ?env, DataReceived ''AUTH_SUCCESS'', Disconnect None] initial_link)"
    unfolding run .
  with r au co show ?thesis by blast
qed

text \<open>
  Claim C10 as stated fails: not every disconnect resets the flags. On a connected and
  authenticated link, a disconnect whose \<^verbatim>\<open>device.disconnect()\<close> throws leaves the
  link connected and authenticated.
\<close>

theorem disconnect_keeps_flags_counterexample:
  "isConnected (run_events
      [Connect \<lparr>bluetooth_error = None, permission_checks = Inr [True, True, True],
         permission_request = Inr [], bondedDevices = Inr [''HC-05'', ''ESP32_Gate''],
         connect_outcome = Inr True, auth_write_error = None\<rparr>,
       DataReceived ''AUTH_SUCCESS'', Disconnect (Some ''socket closed'')] initial_link)
   \<and> isAuthenticated (run_events
      [Connect \<lparr>bluetooth_error = None, permission_checks = Inr [True, True, True],
         permission_request = Inr [], bondedDevices = Inr [''HC-05'', ''ESP32_Gate''],
         connect_outcome = Inr True, auth_write_error = None\<rparr>,
       DataReceived ''AUTH_SUCCESS'', Disconnect (Some ''socket closed'')] initial_link)"
proof -
  let ?env = "\<lparr>bluetooth_error = None, permission_checks = Inr [True, True, True],
         permission_request = Inr [], bondedDevices = Inr [''HC-05'', ''ESP32_Gate''],
         connect_outcome = Inr True, auth_write_error = None\<rparr>"
  have s: "\<And>ev. run_events [Connect ?env, DataReceived ''AUTH_SUCCESS'', ev] initial_link
             = gate_step ev (run_events [Connect ?env, DataReceived ''AUTH_SUCCESS''] initial_link)"
    by simp
  show ?thesis
    unfolding s authenticated_link
    by (simp add: disconnectFromESP32_def addResponse_def)
qed

text \<open>
  The teardown of the component is no disconnect at all: the cleanup of the mount
  effect reads the \<^verbatim>\<open>device\<close> of the first render, which is \<^verbatim>\<open>null\<close>, and so never
  calls \<^verbatim>\<open>disconnectFromESP32\<close>. It changes nothing, also on a connected and
  authenticated link.
\<close>

lemma unmount_changes_nothing: "gate_step (Unmount e) st = st"
  by (simp add: initial_link_def)

text \<open>
  The handler itself does not look at \<open>isConnected\<close>: the invariant rests on the device
  delivering lines only while its connection is open.
\<close>

lemma onDataReceived_without_connection:
  "isAuthenticated (onDataReceived ''AUTH_SUCCESS'' initial_link)
   \<and> \<not> isConnected (onDataReceived ''AUTH_SUCCESS'' initial_link)"
  by (simp add: onDataReceived_def trim_AUTH_SUCCESS addResponse_def initial_link_def)

text \<open>
  Claim C3, as amended. A command that does not start with \<^verbatim>\<open>AUTHENTICATE\<close>, sent while
  the link is not authenticated, writes nothing to the device and changes nothing but
  the alerts: it raises \<^verbatim>\<open>Must authenticate before sending commands\<close> when the link
  is connected, and \<^verbatim>\<open>Not connected to ESP32\<close> when it is not.
\<close>

theorem sendCommand_gated:
  assumes "\<not> startsWith command ''AUTHENTICATE''"
    and "connectionState st \<noteq> Authenticated"
  shows "sendCommand e st command
           = alert ''Error''
               (if isConnected st \<and> device st \<noteq> None
                then ''Must authenticate before sending commands''
                else ''Not connected to ESP32'') st
       \<and> sent (sendCommand e st command) = sent st"
proof -
  from assms(2) have "\<not> isConnected st \<or> \<not> isAuthenticated st"
    by (auto simp: connectionState_def split: if_splits)
  with assms(1) have "sendCommand e st command
           = alert ''Error''
               (if isConnected st \<and> device st \<noteq> None
                then ''Must authenticate before sending commands''
                else ''Not connected to ESP32'') st"
    by (auto simp: sendCommand_def)
  then show ?thesis by simp
qed

theorem sendCommand_gated_witness:
  "\<not> startsWith ''FACE_DETECTED'' ''AUTHENTICATE''
   \<and> connectionState (run_events
        [Connect \<lparr>bluetooth_error = None, permission_checks = Inr [True, True, True],
           permission_request = Inr [], bondedDevices = Inr [''HC-05'', ''ESP32_Gate''],
           connect_outcome = Inr True, auth_write_error = None\<rparr>,
         DataReceived ''AUTH_FAILED''] initial_link) = ConnectedUnauthenticated
   \<and> sent (run_events
        [Connect \<lparr>bluetooth_error = None, permission_checks = Inr [True, True, True],
           permission_request = Inr [], bondedDevices = Inr [''HC-05'', ''ESP32_Gate''],
           connect_outcome = Inr True, auth_write_error = None\<rparr>,
         DataReceived ''AUTH_FAILED'', Send None ''FACE_DETECTED''] initial_link)
      = [''AUTHENTICATE MySecurePass123'' @ [CHR 0x0A]]
   \<and> alerts (run_events
        [Connect \<lparr>bluetooth_error = None, permission_checks = Inr [True, True, True],
           permission_request = Inr [], bondedDevices = Inr [''HC-05'', ''ESP32_Gate''],
           connect_outcome = Inr True, auth_write_error = None\<rparr>,
         DataReceived ''AUTH_FAILED'', Send None ''FACE_DETECTED''] initial_link)
      = [(''Authentication Error'', ''Incorrect password''),
         (''Error'', ''Must authenticate before sending commands'')]"
proof -
  let ?env = "\<lparr>bluetooth_error = None, permission_checks = Inr [True, True, True],
           permission_request = Inr [], bondedDevices = Inr [''HC-05'', ''ESP32_Gate''],
           connect_outcome = Inr True, auth_write_error = None\<rparr>"
  let ?s = "run_events [Connect ?env, DataReceived ''AUTH_FAILED''] initial_link"
  have s: "?s = \<lparr>isConnected = True, isAuthenticated = False, device = Some ''ESP32_Gate'',
      responses = [''Connected to ESP32_Gate'', ''Sent: AUTHENTICATE'',
                   ''Received: AUTH_FAILED'', ''Authentication failed''],
      hasPermissions = True, alerts = [(''Authentication Error'', ''Incorrect password'')],
      sent = [''AUTHENTICATE MySecurePass123'' @ [CHR 0x0A]],
      link_open = True, listening = True\<rparr>"
    by (simp add: connect_ok onDataReceived_def trim_AUTH_FAILED addResponse_def alert_def)
  have h1: "\<not> startsWith ''FACE_DETECTED'' ''AUTHENTICATE''"
    by (simp add: startsWith_def)
  have c: "connectionState ?s = ConnectedUnauthenticated"
    unfolding s by (simp add: connectionState_def)
  then have h2: "connectionState ?s \<noteq> Authenticated" by simp
  have run: "run_events [Connect ?env, DataReceived ''AUTH_FAILED'', Send None ''FACE_DETECTED'']
               initial_link = sendCommand None ?s ''FACE_DETECTED''"
    by simp
  from sendCommand_gated [OF h1 h2, of None]
  have "sent (sendCommand None ?s ''FACE_DETECTED'') = sent ?s"
    and "alerts (sendCommand None ?s ''FACE_DETECTED'')
          = alerts ?s @ [(''Error'', if isConnected ?s \<and> device ?s \<noteq> None
                then ''Must authenticate before sending commands''
                else ''Not connected to ESP32'')]"
    by simp_all
  then have "sent (sendCommand None ?s ''FACE_DETECTED'') = [''AUTHENTICATE MySecurePass123'' @ [CHR 0x0A]]"
    and "alerts (sendCommand None ?s ''FACE_DETECTED'')
          = [(''Authentication Error'', ''Incorrect password''),
             (''Error'', ''Must authenticate before sending commands'')]"
    unfolding s by simp_all
  with h1 c run show ?thesis by simp
qed

text \<open>
  Claim C3 as stated fails on a disconnected link: nothing is written, but what is
  reported is that there is no connection, not that the link is not authenticated.
\<close>

theorem sendCommand_disconnected_counterexample:
  "\<not> startsWith ''FACE_DETECTED'' ''AUTHENTICATE''
   \<and> connectionState initial_link = Disconnected
   \<and> alerts (sendCommand None initial_link ''FACE_DETECTED'')
      = [(''Error'', ''Not connected to ESP32'')]"
  by (simp add: startsWith_def connectionState_def initial_link_def sendCommand_def alert_def)

section \<open>The population of the matcher\<close>














text \<open>
  The other functions of the screen leave the population as it is.
\<close>

lemma frameProcessor_keeps_population:
  "cachedUsers (fst (frameProcessor ts inp st)) = cachedUsers st"
  by (simp add: frameProcessor_def autoCapture_def
      split: sum.splits option.splits ModelOutput.splits)

lemma captureAndVerify_keeps_population:
  "cachedUsers (fst (captureAndVerify ts env st bt db)) = cachedUsers st"
  by (auto simp: captureAndVerify_def capture_body_def Let_def
      split: sum.splits option.splits prod.splits)




section \<open>The capture trigger\<close>




lemma autoCapture_fired:
  "autoCapture fr dets now st = (st', fired) \<Longrightarrow>
     (fired \<longrightarrow> 3000 \<le> now - lastCaptureTime st \<and> lastCaptureTime st' = now)
     \<and> (\<not> fired \<longrightarrow> lastCaptureTime st' = lastCaptureTime st)"
  by (auto simp: autoCapture_def split: if_splits option.splits)

lemma frameProcessor_fired:
  assumes "frameProcessor ts inp st = (st', fired)"
  shows "(fired \<longrightarrow> 3000 \<le> date_now inp - lastCaptureTime st \<and> lastCaptureTime st' = date_now inp)
     \<and> (\<not> fired \<longrightarrow> lastCaptureTime st' = lastCaptureTime st)"
proof -
  have "(\<exists>dets st1. lastCaptureTime st1 = lastCaptureTime st
            \<and> autoCapture (frame inp) dets (date_now inp) st1 = (st', fired))
        \<or> (\<not> fired \<and> lastCaptureTime st' = lastCaptureTime st)"
    using assms
    by (auto simp: frameProcessor_def split: if_splits sum.splits ModelOutput.splits)
  then show ?thesis
    using autoCapture_fired by fastforce
qed


lemma frameProcessor_good_frame:
  "\<not> isScanning st \<Longrightarrow>
   snd (frameProcessor ts
     \<lparr>frame = \<lparr>frame_width = 640, frame_height = 480\<rparr>, model_present = True,
      model_loaded = True,
      model_output = Outputs [(1 / 4, 1 / 4, 3 / 4, 3 / 4)] [9 / 10],
      date_now = t, elapsed = 12\<rparr> st) = (3000 \<le> t - lastCaptureTime st)
   \<and> lastCaptureTime (fst (frameProcessor ts
     \<lparr>frame = \<lparr>frame_width = 640, frame_height = 480\<rparr>, model_present = True,
      model_loaded = True,
      model_output = Outputs [(1 / 4, 1 / 4, 3 / 4, 3 / 4)] [9 / 10],
      date_now = t, elapsed = 12\<rparr> st))
     = (if 3000 \<le> t - lastCaptureTime st then t else lastCaptureTime st)"
  by (simp add: frameProcessor_def autoCapture_def validFace_def Let_def)

text \<open>
  One evaluation of the trigger inside the cooldown dispatches nothing, whatever it
  detects. The time it compares with is the one the worklet reads, that of the render
  that created it.
\<close>

lemma frameProcessor_cooldown:
  "date_now inp - lastCaptureTime st < 3000 \<Longrightarrow> snd (frameProcessor ts inp st) = False"
proof -
  assume c: "date_now inp - lastCaptureTime st < 3000"
  obtain st' fired where f: "frameProcessor ts inp st = (st', fired)"
    by (cases "frameProcessor ts inp st")
  from frameProcessor_fired [OF f] c f show ?thesis by auto
qed

lemma frameProcessor_worklet_cooldown:
  "date_now inp - lastCaptureTime snap < 3000 \<Longrightarrow>
     snd (frameProcessor_worklet ts inp snap live) = False"
  using frameProcessor_cooldown
    [of inp "live\<lparr>isScanning := isScanning snap, lastCaptureTime := lastCaptureTime snap\<rparr>" ts]
  by (simp add: frameProcessor_worklet_def case_prod_beta)

lemma frameProcessor_worklet_good_frame:
  "\<not> isScanning snap \<Longrightarrow>
   snd (frameProcessor_worklet ts
     \<lparr>frame = \<lparr>frame_width = 640, frame_height = 480\<rparr>, model_present = True,
      model_loaded = True,
      model_output = Outputs [(1 / 4, 1 / 4, 3 / 4, 3 / 4)] [9 / 10],
      date_now = t, elapsed = 12\<rparr> snap live) = (3000 \<le> t - lastCaptureTime snap)
   \<and> lastCaptureTime (fst (frameProcessor_worklet ts
     \<lparr>frame = \<lparr>frame_width = 640, frame_height = 480\<rparr>, model_present = True,
      model_loaded = True,
      model_output = Outputs [(1 / 4, 1 / 4, 3 / 4, 3 / 4)] [9 / 10],
      date_now = t, elapsed = 12\<rparr> snap live))
     = (if 3000 \<le> t - lastCaptureTime snap then t else lastCaptureTime live)
   \<and> isScanning (fst (frameProcessor_worklet ts
     \<lparr>frame = \<lparr>frame_width = 640, frame_height = 480\<rparr>, model_present = True,
      model_loaded = True,
      model_output = Outputs [(1 / 4, 1 / 4, 3 / 4, 3 / 4)] [9 / 10],
      date_now = t, elapsed = 12\<rparr> snap live)) = isScanning live"
proof -
  assume n: "\<not> isScanning snap"
  let ?inp = "\<lparr>frame = \<lparr>frame_width = 640, frame_height = 480\<rparr>, model_present = True,
      model_loaded = True,
      model_output = Outputs [(1 / 4, 1 / 4, 3 / 4, 3 / 4)] [9 / 10],
      date_now = t, elapsed = 12\<rparr>"
  let ?st = "live\<lparr>isScanning := isScanning snap, lastCaptureTime := lastCaptureTime snap\<rparr>"
  have "\<not> isScanning ?st" using n by simp
  from frameProcessor_good_frame [OF this, of ts t]
  show ?thesis by (simp add: frameProcessor_worklet_def case_prod_beta)
qed

text \<open>
  Claim C7 fails in the code: the trigger fires twice within 3000 ms. Two frames, 33 ms
  apart, each with an eligible face, are processed by the worklet of the same render
  (the render that follows the first dispatch has not happened yet): both read the
  time of the last capture as it was at that render, and both dispatch a capture. With
  a render between the two frames the second one dispatches nothing.
\<close>

theorem frameProcessor_fires_twice_before_render:
  "run_worklet engine (initial_screen, initial_screen)
     [FrameEvent \<lparr>frame = \<lparr>frame_width = 640, frame_height = 480\<rparr>, model_present = True,
        model_loaded = True, model_output = Outputs [(1 / 4, 1 / 4, 3 / 4, 3 / 4)] [9 / 10],
        date_now = 5000, elapsed = 12\<rparr>,
      FrameEvent \<lparr>frame = \<lparr>frame_width = 640, frame_height = 480\<rparr>, model_present = True,
        model_loaded = True, model_output = Outputs [(1 / 4, 1 / 4, 3 / 4, 3 / 4)] [9 / 10],
        date_now = 5033, elapsed = 12\<rparr>]
    = [Dispatched 5000, Dispatched 5033]
   \<and> run_worklet engine (initial_screen, initial_screen)
     [FrameEvent \<lparr>frame = \<lparr>frame_width = 640, frame_height = 480\<rparr>, model_present = True,
        model_loaded = True, model_output = Outputs [(1 / 4, 1 / 4, 3 / 4, 3 / 4)] [9 / 10],
        date_now = 5000, elapsed = 12\<rparr>,
      Rerender,
      FrameEvent \<lparr>frame = \<lparr>frame_width = 640, frame_height = 480\<rparr>, model_present = True,
        model_loaded = True, model_output = Outputs [(1 / 4, 1 / 4, 3 / 4, 3 / 4)] [9 / 10],
        date_now = 5033, elapsed = 12\<rparr>]
    = [Dispatched 5000, Rendered]"
proof -
  let ?f = "\<lambda>t. \<lparr>frame = \<lparr>frame_width = 640, frame_height = 480\<rparr>, model_present = True,
        model_loaded = True, model_output = Outputs [(1 / 4, 1 / 4, 3 / 4, 3 / 4)] [9 / 10],
        date_now = t, elapsed = 12\<rparr>"
  have step: "\<And>live snap t evs. \<not> isScanning snap \<Longrightarrow>
      run_worklet engine (live, snap) (FrameEvent (?f t) # evs)
        = (if 3000 \<le> t - lastCaptureTime snap then [Dispatched t] else [])
            @ run_worklet engine (fst (frameProcessor_worklet engine (?f t) snap live), snap) evs"
  proof -
    fix live snap :: VerifyScreen and t :: int and evs :: "TriggerEvent list"
    assume n: "\<not> isScanning snap"
    from frameProcessor_worklet_good_frame [OF n, of engine t live]
    show "run_worklet engine (live, snap) (FrameEvent (?f t) # evs)
        = (if 3000 \<le> t - lastCaptureTime snap then [Dispatched t] else [])
            @ run_worklet engine (fst (frameProcessor_worklet engine (?f t) snap live), snap) evs"
      by (simp add: case_prod_beta)
  qed
  have n0: "\<not> isScanning initial_screen" by (simp add: initial_screen_def)
  have l0: "lastCaptureTime initial_screen = 0" by (simp add: initial_screen_def)
  let ?live = "fst (frameProcessor_worklet engine (?f 5000) initial_screen initial_screen)"
  from frameProcessor_worklet_good_frame [OF n0, of engine 5000 initial_screen]
  have l1: "lastCaptureTime ?live = 5000" and n1: "\<not> isScanning ?live"
    by (simp_all add: l0 n0)
  have a: "run_worklet engine (initial_screen, initial_screen)
             [FrameEvent (?f 5000), FrameEvent (?f 5033)] = [Dispatched 5000, Dispatched 5033]"
    by (simp add: step [OF n0] l0 del: run_worklet.simps(2))
  have b: "run_worklet engine (initial_screen, initial_screen)
             [FrameEvent (?f 5000), Rerender, FrameEvent (?f 5033)] = [Dispatched 5000, Rendered]"
    by (simp add: step [OF n0] step [OF n1] l0 l1 del: run_worklet.simps(2))
  from a b show ?thesis by blast
qed

section \<open>The verification pipeline\<close>





end
